theory Spec2Isabelle
  imports Main "HOL-Library.Word" "HOL-Library.Signed_Division"
begin

section \<open>The TCP layer of src/network/tcp.c\<close>

text \<open>
  The file embeds the four functions of \<^verbatim>\<open>tcp.c\<close>: \<^verbatim>\<open>SocksNegociate\<close>,
  \<^verbatim>\<open>SocksHandshakeTCP\<close>, \<^verbatim>\<open>__net_Connect\<close> and \<^verbatim>\<open>__net_Accept\<close>.
  C \<^verbatim>\<open>int\<close> values are HOL integers: the arithmetic of the file is the decrement
  of a positive quotient and sums of lengths below 640, which cannot overflow, and the
  one narrowing conversion (the wait of \<^verbatim>\<open>__net_Accept\<close>) is written out;
  bytes on the wire are \<open>8 word\<close>; a nullable \<^verbatim>\<open>char *\<close> is a \<open>string option\<close>.
  Everything the operating system, the peer and the configuration decide is an explicit
  component of the state the functions are run on, and every call that leaves the
  process is recorded, in order, in a trace.
\<close>

subsection \<open>Events, messages and constants\<close>

type_synonym byte = "8 word"

datatype level = Dbg | Warn | Err

datatype event =
    Msg level string                  \<comment> \<open>\<^verbatim>\<open>msg_Dbg\<close>, \<^verbatim>\<open>msg_Warn\<close>, \<^verbatim>\<open>msg_Err\<close> with the format string\<close>
  | Write int "byte list"             \<comment> \<open>\<^verbatim>\<open>net_Write\<close>: descriptor, bytes that went out\<close>
  | Read int nat "byte list"          \<comment> \<open>\<^verbatim>\<open>net_Read\<close>: descriptor, length asked, bytes obtained\<close>
  | Resolve string int int            \<comment> \<open>\<^verbatim>\<open>vlc_getaddrinfo\<close>: host, port, return code\<close>
  | FreeAddrInfo                      \<comment> \<open>\<^verbatim>\<open>vlc_freeaddrinfo\<close>\<close>
  | Socket int int int int            \<comment> \<open>\<^verbatim>\<open>net_Socket\<close>: family, type, protocol, result\<close>
  | Connect int                       \<comment> \<open>\<^verbatim>\<open>connect\<close> on a descriptor\<close>
  | Poll "int list" int               \<comment> \<open>\<^verbatim>\<open>poll\<close>: descriptors handed over, timeout in ms\<close>
  | SoError int                       \<comment> \<open>\<^verbatim>\<open>getsockopt (SO_ERROR)\<close>\<close>
  | Close int                         \<comment> \<open>\<^verbatim>\<open>net_Close\<close>\<close>
  | Accept int                        \<comment> \<open>\<^verbatim>\<open>accept\<close> on a listening descriptor\<close>
  | SetupSocket int                   \<comment> \<open>\<^verbatim>\<open>net_SetupSocket\<close>\<close>
  | ObjectWait                        \<comment> \<open>\<^verbatim>\<open>vlc_object_wait\<close>: consumes the wake-up\<close>

text \<open>
  Constants of headers that are not part of the file. Only their being distinct matters
  below; the values are those of Linux and of the historical \<^verbatim>\<open>vlc/vlc.h\<close>.
\<close>

definition VLC_SUCCESS :: int where "VLC_SUCCESS = 0"
definition VLC_EGENERIC :: int where "VLC_EGENERIC = - 666"
definition EINTR :: int where "EINTR = 4"
definition EINPROGRESS :: int where "EINPROGRESS = 115"
definition SOCK_STREAM :: int where "SOCK_STREAM = 1"
definition IPPROTO_TCP :: int where "IPPROTO_TCP = 6"

text \<open>
  Dereferencing a null pointer has no defined result in C. The model makes it a value,
  so that a run that reaches one is told apart from every run that returns.
\<close>

datatype fault = NullDereference

definition bytes_of :: "string \<Rightarrow> byte list" where
  "bytes_of s = map of_char s"

definition SetWBE :: "int \<Rightarrow> byte list" where
  \<comment> \<open>the macro of \<^verbatim>\<open>vlc_common.h\<close>: a 16-bit value, most significant byte first\<close>
  "SetWBE v = [word_of_int (v div 256), word_of_int v]"

subsection \<open>A connected stream socket\<close>

text \<open>
  The peer of a connected socket is a script: \<open>inbuf\<close> holds the bytes it delivers
  before the stream ends, \<open>wcap\<close> the number of bytes it takes before writes fail.
  \<^verbatim>\<open>net_Write\<close> and \<^verbatim>\<open>net_Read\<close> are not in the file; they are modelled by their
  contract: each returns the number of bytes moved, and \<^verbatim>\<open>net_Read\<close> with the retry
  flag set returns fewer bytes than asked only when the stream has ended.
\<close>

record proc =
  trace :: "event list"

record chan = proc +
  inbuf :: "byte list"
  wcap :: nat
  gai_inet :: "string \<Rightarrow> int \<times> byte list"
    \<comment> \<open>\<^verbatim>\<open>vlc_getaddrinfo\<close> restricted to \<^verbatim>\<open>AF_INET\<close>: return code, the four address bytes\<close>

definition msg :: "level \<Rightarrow> string \<Rightarrow> 'a proc_scheme \<Rightarrow> 'a proc_scheme" where
  "msg l s c = c\<lparr>trace := trace c @ [Msg l s]\<rparr>"

definition emit :: "event \<Rightarrow> 'a proc_scheme \<Rightarrow> 'a proc_scheme" where
  "emit e c = c\<lparr>trace := trace c @ [e]\<rparr>"

definition net_Write :: "'a chan_scheme \<Rightarrow> int \<Rightarrow> byte list \<Rightarrow> int \<Rightarrow> 'a chan_scheme \<times> int" where
  "net_Write c fd buffer i_len =
     (let out = take (min (nat i_len) (wcap c)) buffer
      in (c\<lparr>trace := trace c @ [Write fd out], wcap := wcap c - length out\<rparr>,
          int (length out)))"

definition net_Read :: "'a chan_scheme \<Rightarrow> int \<Rightarrow> int \<Rightarrow> 'a chan_scheme \<times> byte list \<times> int" where
  "net_Read c fd i_len =
     (let got = take (nat i_len) (inbuf c)
      in (c\<lparr>trace := trace c @ [Read fd (nat i_len) got],
             inbuf := drop (nat i_len) (inbuf c)\<rparr>,
          got, int (length got)))"

subsection \<open>SocksNegociate\<close>

text \<open>
  The user/password branch of the source. \<^verbatim>\<open>strlen\<close> is applied to both pointers,
  in this order, before anything is written; on a null pointer it has no defined result.
\<close>

definition socks_userpass ::
  "'a chan_scheme \<Rightarrow> int \<Rightarrow> int \<Rightarrow> string option \<Rightarrow> string option \<Rightarrow> 'a chan_scheme \<times> (fault + int)" where
  "socks_userpass c fd i_socks_version psz_socks_user psz_socks_passwd =
     (case psz_socks_user of
        None \<Rightarrow> (c, Inl NullDereference)
      | Some user \<Rightarrow>
     (case psz_socks_passwd of
        None \<Rightarrow> (c, Inl NullDereference)
      | Some passwd \<Rightarrow>
        let i_len1 = min (length user) 255;
            i_len2 = min (length passwd) 255;
            c1 = msg Dbg ''socks: username/password authentication'' c;
            buffer = [word_of_int i_socks_version, of_nat i_len1]
                     @ take i_len1 (bytes_of user)
                     @ [of_nat i_len2]
                     @ take i_len2 (bytes_of passwd);
            i_len = 3 + int i_len1 + int i_len2;
            (c2, n) = net_Write c1 fd buffer i_len
        in if n \<noteq> i_len then (c2, Inr VLC_EGENERIC)
           else
             let (c3, buf, m) = net_Read c2 fd 2
             in if m \<noteq> 2 then (c3, Inr VLC_EGENERIC)
                else
                  let c4 = msg Dbg ''socks: v=%d status=%x'' c3
                  in if buf ! 1 \<noteq> 0
                     then (msg Err ''socks: authentication rejected'' c4, Inr VLC_EGENERIC)
                     else (c4, Inr VLC_SUCCESS)))"

definition SocksNegociate ::
  "'a chan_scheme \<Rightarrow> int \<Rightarrow> int \<Rightarrow> string option \<Rightarrow> string option \<Rightarrow> 'a chan_scheme \<times> (fault + int)" where
  "SocksNegociate c fd i_socks_version psz_socks_user psz_socks_passwd =
     (if i_socks_version \<noteq> 5 then (c, Inr VLC_SUCCESS)
      else
        let b_auth = (psz_socks_user = None \<and> psz_socks_passwd = None);
            buffer = (if b_auth then [word_of_int i_socks_version, 2, 0, 2]
                      else [word_of_int i_socks_version, 1, 0]);
            i_len = (if b_auth then 4 else 3);
            (c1, n) = net_Write c fd buffer i_len
        in if n \<noteq> i_len then (c1, Inr VLC_EGENERIC)
           else
             let (c2, buf, m) = net_Read c1 fd 2
             in if m \<noteq> 2 then (c2, Inr VLC_EGENERIC)
                else
                  let c3 = msg Dbg ''socks: v=%d method=%x'' c2
                  in if buf ! 1 = 0
                     then (msg Dbg ''socks: no authentication required'' c3, Inr VLC_SUCCESS)
                     else if buf ! 1 = 2
                     then socks_userpass c3 fd i_socks_version psz_socks_user psz_socks_passwd
                     else (msg Err (if b_auth then ''socks: unsupported authentication method %x''
                                    else ''socks: authentification needed'') c3,
                           Inr VLC_EGENERIC))"

subsection \<open>SocksHandshakeTCP\<close>

definition socks4_request ::
  "'a chan_scheme \<Rightarrow> int \<Rightarrow> int \<Rightarrow> string \<Rightarrow> int \<Rightarrow> 'a chan_scheme \<times> (fault + int)" where
  "socks4_request c fd i_socks_version psz_host i_port =
     (let (rc, sin_addr) = gai_inet c psz_host;
          c1 = emit (Resolve psz_host 0 rc) c
      in if rc \<noteq> 0 then (c1, Inr VLC_EGENERIC)
         else
           let buffer = [word_of_int i_socks_version, 1] @ SetWBE i_port @ take 4 sin_addr;
               c2 = emit FreeAddrInfo c1;
               (c3, n) = net_Write c2 fd (buffer @ [0]) 9
           in if n \<noteq> 9 then (c3, Inr VLC_EGENERIC)
              else
                let (c4, buf, m) = net_Read c3 fd 8
                in if m \<noteq> 8 then (c4, Inr VLC_EGENERIC)
                   else
                     let c5 = msg Dbg ''socks: v=%d cd=%d'' c4
                     in if buf ! 1 \<noteq> 90 then (c5, Inr VLC_EGENERIC)
                        else (c5, Inr VLC_SUCCESS))"

definition socks5_request ::
  "'a chan_scheme \<Rightarrow> int \<Rightarrow> int \<Rightarrow> string \<Rightarrow> int \<Rightarrow> 'a chan_scheme \<times> (fault + int)" where
  "socks5_request c fd i_socks_version psz_host i_port =
     (let i_hlen = min (length psz_host) 255;
          buffer = [word_of_int i_socks_version, 1, 0, 3, of_nat i_hlen]
                   @ take i_hlen (bytes_of psz_host) @ SetWBE i_port;
          i_len = 5 + int i_hlen + 2;
          (c1, n) = net_Write c fd buffer i_len
      in if n \<noteq> i_len then (c1, Inr VLC_EGENERIC)
         else
           let (c2, buf, m) = net_Read c1 fd 5
           in if m \<noteq> 5 then (c2, Inr VLC_EGENERIC)
              else
                let c3 = msg Dbg ''socks: v=%d rep=%d atyp=%d'' c2
                in if buf ! 1 \<noteq> 0
                   then (msg Err (''socks: CONNECT request failed'' @ [CHR 0x0A]) c3,
                         Inr VLC_EGENERIC)
                   else if buf ! 3 \<noteq> 1 \<and> buf ! 3 \<noteq> 3 \<and> buf ! 3 \<noteq> 4
                   then (c3, Inr VLC_EGENERIC)
                   else
                     let i_len2 = (if buf ! 3 = 1 then 4 - 1 + 2
                                   else if buf ! 3 = 3 then uint (buf ! 4) + 2
                                   else 16 - 1 + 2);
                         (c4, rest, k) = net_Read c3 fd i_len2
                     in if k \<noteq> i_len2 then (c4, Inr VLC_EGENERIC)
                        else (c4, Inr VLC_SUCCESS))"

definition SocksHandshakeTCP ::
  "'a chan_scheme \<Rightarrow> int \<Rightarrow> int \<Rightarrow> string option \<Rightarrow> string option \<Rightarrow> string \<Rightarrow> int
     \<Rightarrow> 'a chan_scheme \<times> (fault + int)" where
  "SocksHandshakeTCP c fd i_socks_version0 psz_user psz_passwd psz_host i_port =
     (let invalid = (i_socks_version0 \<noteq> 4 \<and> i_socks_version0 \<noteq> 5);
          c0 = (if invalid then msg Warn ''invalid socks protocol version %d'' c else c);
          i_socks_version = (if invalid then 5 else i_socks_version0);
          (c1, r) = (if i_socks_version = 5
                     then SocksNegociate c0 fd i_socks_version psz_user psz_passwd
                     else (c0, Inr VLC_SUCCESS))
      in case r of
           Inl f \<Rightarrow> (c1, Inl f)
         | Inr rc \<Rightarrow>
             if i_socks_version = 5 \<and> rc \<noteq> 0 then (c1, Inr VLC_EGENERIC)
             else if i_socks_version = 4 then socks4_request c1 fd i_socks_version psz_host i_port
             else if i_socks_version = 5 then socks5_request c1 fd i_socks_version psz_host i_port
             else (c1, Inr VLC_SUCCESS))"

subsection \<open>net_Connect\<close>

text \<open>
  The world a connect call runs in. The configuration is the variable store of the
  object (\<open>var_str\<close>, \<open>var_int\<close>); \<open>getaddrinfo\<close> is the resolver; \<open>attempts k\<close>
  says how the operating system answers while the candidate at position \<open>k\<close> of the
  resolved list is tried.
\<close>

record addrinfo =
  ai_family :: int
  ai_socktype :: int
  ai_protocol :: int
  ai_addr :: "byte list"

record attempt =
  sock_fd :: int                    \<comment> \<open>what \<^verbatim>\<open>net_Socket\<close> returns\<close>
  conn_ret :: int                   \<comment> \<open>what \<^verbatim>\<open>connect\<close> returns\<close>
  conn_errno :: int                 \<comment> \<open>\<^verbatim>\<open>net_errno\<close> after \<^verbatim>\<open>connect\<close>\<close>
  die_at :: "nat \<Rightarrow> bool"          \<comment> \<open>\<^verbatim>\<open>p_this->b_die\<close> when read in iteration k of the poll loop\<close>
  poll_ret :: "nat \<Rightarrow> int"         \<comment> \<open>what \<^verbatim>\<open>poll\<close> returns in iteration k\<close>
  poll_errno :: "nat \<Rightarrow> int"       \<comment> \<open>\<^verbatim>\<open>net_errno\<close> after that \<^verbatim>\<open>poll\<close>\<close>
  so_ret :: int                     \<comment> \<open>what \<^verbatim>\<open>getsockopt\<close> returns\<close>
  so_val :: int                     \<comment> \<open>the pending error it stores in \<^verbatim>\<open>i_val\<close>\<close>

record world = chan +
  var_str :: "string \<Rightarrow> string option"
  var_int :: "string \<Rightarrow> int"
  getaddrinfo :: "string \<Rightarrow> int \<Rightarrow> int \<times> addrinfo list"
  attempts :: "nat \<Rightarrow> attempt"

definition var_CreateGetNonEmptyString :: "world \<Rightarrow> string \<Rightarrow> string option" where
  "var_CreateGetNonEmptyString w name =
     (case var_str w name of None \<Rightarrow> None | Some s \<Rightarrow> if s = [] then None else Some s)"

text \<open>
  \<^verbatim>\<open>atoi\<close> of the C library, on the text after the colon of the proxy setting: blanks,
  an optional sign, then decimal digits up to the first other character. A value out
  of range has no result defined by the language; the model does what glibc does, where
  \<^verbatim>\<open>atoi\<close> is \<^verbatim>\<open>strtol\<close> (which stops at the ends of the 64-bit range) stored in
  an \<^verbatim>\<open>int\<close>.
\<close>

fun digits_val :: "int \<Rightarrow> string \<Rightarrow> int" where
  "digits_val acc [] = acc"
| "digits_val acc (c # cs) =
     (if (48::nat) \<le> of_char c \<and> (of_char c :: nat) \<le> 57
      then digits_val (10 * acc + (int (of_char c) - 48)) cs
      else acc)"

definition atoi :: "string \<Rightarrow> int" where
  "atoi s =
     (let t = dropWhile (\<lambda>c. c = CHR '' '' \<or> (9::nat) \<le> of_char c \<and> (of_char c :: nat) \<le> 13) s;
          v = (case t of
                 [] \<Rightarrow> 0
               | c # cs \<Rightarrow> if c = CHR ''-'' then - digits_val 0 cs
                           else if c = CHR ''+'' then digits_val 0 cs
                           else digits_val 0 t);
          l = max (- (2 ^ 63)) (min (2 ^ 63 - 1) v)
      in (l + 2 ^ 31) mod 2 ^ 32 - 2 ^ 31)"

datatype loop_exit = Writable | NextAi | Aborted

function poll_loop :: "world \<Rightarrow> attempt \<Rightarrow> int \<Rightarrow> int \<Rightarrow> int \<Rightarrow> nat \<Rightarrow> world \<times> loop_exit" where
  "poll_loop w a fd quot rem k =
     (if die_at a k
      then (emit FreeAddrInfo (emit (Close fd) (msg Dbg ''connection aborted'' w)), Aborted)
      else
        let w1 = emit (Poll [fd] (if quot > 0 then 100 else rem)) w;
            i_ret = poll_ret a k
        in if i_ret = 1 then (w1, Writable)
           else if i_ret = - 1 \<and> poll_errno a k \<noteq> EINTR
           then (msg Err ''connection polling error: %m'' w1, NextAi)
           else if quot \<le> 0
           then (msg Warn ''connection timed out'' w1, NextAi)
           else poll_loop w1 a fd (quot - 1) rem (Suc k))"
  by pat_completeness auto
termination
  by (relation "measure (\<lambda>(w, a, fd, quot, rem, k). nat quot)") auto

text \<open>
  One turn of the loop over the resolved candidates: \<open>Continue\<close> is both
  \<^verbatim>\<open>continue\<close> and the label \<^verbatim>\<open>next_ai\<close> (which closes the socket first),
  \<open>Break fd\<close> is the success exit with \<^verbatim>\<open>i_handle = fd\<close>, \<open>Return\<close> the
  \<^verbatim>\<open>return -1\<close> from inside the poll loop.
\<close>

datatype step = Continue | Break int | Return

definition next_ai :: "world \<Rightarrow> int \<Rightarrow> world \<times> step" where
  "next_ai w fd = (emit (Close fd) w, Continue)"

definition succeeded :: "world \<Rightarrow> int \<Rightarrow> world \<times> step" where
  "succeeded w fd = (msg Dbg ''connection succeeded (socket = %d)'' w, Break fd)"

definition attempt_one :: "world \<Rightarrow> attempt \<Rightarrow> addrinfo \<Rightarrow> int \<Rightarrow> int \<Rightarrow> world \<times> step" where
  "attempt_one w a ptr type proto =
     (let fd = sock_fd a;
          w1 = emit (Socket (ai_family ptr)
                            (if type \<noteq> 0 then type else ai_socktype ptr)
                            (if proto \<noteq> 0 then proto else ai_protocol ptr) fd) w
      in if fd = - 1 then (msg Dbg ''socket error: %m'' w1, Continue)
         else
           let w2 = emit (Connect fd) w1
           in if conn_ret a \<noteq> 0
              then
                if conn_errno a \<noteq> EINPROGRESS
                then next_ai (msg Err ''connection failed: %m'' w2) fd
                else
                  let w3 = msg Dbg ''connection: %m'' w2;
                      timeout = var_int w3 ''ipv4-timeout'';
                      w4 = (if timeout < 0
                            then msg Err ''invalid negative value for ipv4-timeout'' w3 else w3);
                      timeout' = (if timeout < 0 then 0 else timeout);
                      (w5, ex) = poll_loop w4 a fd (timeout' sdiv 100) (timeout' smod 100) 0
                  in case ex of
                       Aborted \<Rightarrow> (w5, Return)
                     | NextAi \<Rightarrow> next_ai w5 fd
                     | Writable \<Rightarrow>
                         let w6 = emit (SoError fd) w5
                         in if so_ret a = - 1 \<or> so_val a \<noteq> 0
                            then next_ai (msg Err ''connection failed: %m'' w6) fd
                            else succeeded w6 fd
              else succeeded w2 fd)"

text \<open>
  The loop over the candidates; the result is \<open>None\<close> after the \<^verbatim>\<open>return -1\<close> from
  inside, and otherwise the value of \<^verbatim>\<open>i_handle\<close> on leaving the loop.
\<close>

fun connect_loop :: "world \<Rightarrow> addrinfo list \<Rightarrow> nat \<Rightarrow> int \<Rightarrow> int \<Rightarrow> world \<times> int option" where
  "connect_loop w [] k type proto = (w, Some (- 1))"
| "connect_loop w (ptr # rest) k type proto =
     (case attempt_one w (attempts w k) ptr type proto of
        (w', Continue) \<Rightarrow> connect_loop w' rest (Suc k) type proto
      | (w', Break fd) \<Rightarrow> (w', Some fd)
      | (w', Return) \<Rightarrow> (w', None))"

text \<open>
  From the resolution on. \<open>socks\<close> says whether the proxy setting was non-empty; the
  host and port handed to the resolver are those of the proxy then, while
  \<open>psz_host\<close> and \<open>i_port\<close> stay those of the target.
\<close>

definition connect_resolved ::
  "world \<Rightarrow> bool \<Rightarrow> string \<Rightarrow> int \<Rightarrow> string \<Rightarrow> int \<Rightarrow> int \<Rightarrow> int \<Rightarrow> world \<times> (fault + int)" where
  "connect_resolved w socks psz_realhost i_realport psz_host i_port type proto =
     (let (i_val, res) = getaddrinfo w psz_realhost i_realport;
          w1 = emit (Resolve psz_realhost i_realport i_val) w
      in if i_val \<noteq> 0 then (msg Err ''cannot resolve %s port %d : %s'' w1, Inr (- 1))
         else
           case connect_loop w1 res 0 type proto of
             (w2, None) \<Rightarrow> (w2, Inr (- 1))
           | (w2, Some i_handle) \<Rightarrow>
               let w3 = emit FreeAddrInfo w2
               in if i_handle = - 1 then (w3, Inr (- 1))
                  else if socks
                  then
                    let psz_user = var_CreateGetNonEmptyString w3 ''socks-user'';
                        psz_pwd = var_CreateGetNonEmptyString w3 ''socks-pwd''
                    in case SocksHandshakeTCP w3 i_handle 5 psz_user psz_pwd psz_host i_port of
                         (w4, Inl f) \<Rightarrow> (w4, Inl f)
                       | (w4, Inr rc) \<Rightarrow>
                           if rc \<noteq> 0
                           then (emit (Close i_handle) (msg Err ''SOCKS handshake failed'' w4),
                                 Inr (- 1))
                           else (w4, Inr i_handle)
                  else (w3, Inr i_handle))"

definition net_Connect :: "world \<Rightarrow> string \<Rightarrow> int \<Rightarrow> int \<Rightarrow> int \<Rightarrow> world \<times> (fault + int)" where
  "net_Connect w psz_host i_port0 type proto =
     (let i_port = (if i_port0 = 0 then 80 else i_port0)
      in case var_CreateGetNonEmptyString w ''socks'' of
           Some psz_socks \<Rightarrow>
             let psz_realhost = takeWhile (\<lambda>c. c \<noteq> CHR '':'') psz_socks;
                 psz = dropWhile (\<lambda>c. c \<noteq> CHR '':'') psz_socks;
                 i_realport = (if psz \<noteq> [] then atoi (tl psz) else 1080);
                 w1 = msg Dbg ''net: connecting to %s port %d (SOCKS) for %s port %d'' w
             in if type \<noteq> 0 \<and> type \<noteq> SOCK_STREAM
                then (msg Err ''Socket type not supported through SOCKS'' w1, Inr (- 1))
                else if proto \<noteq> 0 \<and> proto \<noteq> IPPROTO_TCP
                then (msg Err ''Transport not supported through SOCKS'' w1, Inr (- 1))
                else connect_resolved w1 True psz_realhost i_realport psz_host i_port
                       SOCK_STREAM IPPROTO_TCP
         | None \<Rightarrow>
             connect_resolved (msg Dbg ''net: connecting to %s port %d'' w) False
               psz_host i_port psz_host i_port type proto)"

text \<open>
  What a trace leaves behind: the sockets created and not closed, and the number of
  resolved lists not yet released.
\<close>

fun track :: "int list \<Rightarrow> event \<Rightarrow> int list" where
  "track os (Socket fam ty pr fd) = (if fd = - 1 then os else fd # os)"
| "track os (Close fd) = remove1 fd os"
| "track os e = os"

definition open_fds :: "event list \<Rightarrow> int list" where
  "open_fds tr = foldl track [] tr"

fun held :: "int \<Rightarrow> event \<Rightarrow> int" where
  "held n (Resolve h p rc) = (if rc = 0 then n + 1 else n)"
| "held n FreeAddrInfo = n - 1"
| "held n e = n"

definition live_addrinfo :: "event list \<Rightarrow> int" where
  "live_addrinfo tr = foldl held 0 tr"

subsection \<open>net_Accept\<close>

text \<open>
  The listening sockets are an array of \<^verbatim>\<open>int\<close> ended by \<open>-1\<close>, owned by the caller;
  \<open>pi_fd\<close> is the content of that memory, the end mark included. \<^verbatim>\<open>memmove\<close> counts
  bytes, so the array is also read as bytes: an \<^verbatim>\<open>int\<close> takes four of them, in the
  order of the platform (\<open>big_endian\<close>).
\<close>

definition int_bytes :: "bool \<Rightarrow> int \<Rightarrow> byte list" where
  "int_bytes be v =
     (let u = v mod 2 ^ 32;
          le = [word_of_int (u mod 256), word_of_int (u div 256 mod 256),
                word_of_int (u div 65536 mod 256), word_of_int (u div 16777216)]
      in if be then rev le else le)"

definition bytes_int :: "bool \<Rightarrow> byte list \<Rightarrow> int" where
  "bytes_int be bs =
     (let le = (if be then rev bs else bs);
          u = uint (le ! 0) + 256 * uint (le ! 1) + 65536 * uint (le ! 2)
              + 16777216 * uint (le ! 3)
      in if u \<ge> 2 ^ 31 then u - 2 ^ 32 else u)"

fun chop4 :: "byte list \<Rightarrow> byte list list" where
  "chop4 (a # b # c # d # r) = [a, b, c, d] # chop4 r"
| "chop4 r = []"

definition memmove :: "byte list \<Rightarrow> nat \<Rightarrow> nat \<Rightarrow> nat \<Rightarrow> byte list" where
  \<comment> \<open>\<open>len\<close> bytes from offset \<open>src\<close> to offset \<open>dst\<close>, read before any is overwritten\<close>
  "memmove mem dst src len = take dst mem @ take len (drop src mem) @ drop (dst + len) mem"

record pollfd =
  fd :: int
  events :: int
  revents :: int

definition POLLIN :: int where "POLLIN = 1"

text \<open>
  One turn of the outer loop, as the environment decides it: whether the object is
  alive at the test, whether \<^verbatim>\<open>poll\<close> fails and with which \<^verbatim>\<open>errno\<close>, which descriptors
  become readable before the wait ends, and what \<^verbatim>\<open>accept\<close> returns on each socket.
\<close>

record round =
  alive :: bool
  poll_fails :: "int option"
  readable :: "int list"
  accept_ret :: "int \<Rightarrow> int"

record acceptor = proc +
  pi_fd :: "int list"
  errno :: int
  big_endian :: bool

text \<open>
  \<^verbatim>\<open>poll (ufd, nfds, timeout)\<close> looks at the first \<open>nfds\<close> entries only. With a
  negative timeout and none of them readable it does not return (\<open>None\<close>).
\<close>

definition poll ::
  "acceptor \<Rightarrow> round \<Rightarrow> pollfd list \<Rightarrow> nat \<Rightarrow> int \<Rightarrow> acceptor \<times> pollfd list \<times> int option" where
  "poll s r ufd nfds timeout =
     (let s1 = emit (Poll (map fd (take nfds ufd)) timeout) s
      in case poll_fails r of
           Some e \<Rightarrow> (s1\<lparr>errno := e\<rparr>, ufd, Some (- 1))
         | None \<Rightarrow>
             let seen = map (\<lambda>u. u\<lparr>revents := (if fd u \<in> set (readable r) \<and> events u = POLLIN
                                               then POLLIN else 0)\<rparr>) (take nfds ufd);
                 cnt = length (filter (\<lambda>u. revents u \<noteq> 0) seen)
             in if cnt = 0 \<and> timeout < 0 then (s1, seen @ drop nfds ufd, None)
                else (s1, seen @ drop nfds ufd, Some (int cnt)))"

text \<open>The move of the serviced socket, as the source writes it.\<close>

definition move_to_end :: "acceptor \<Rightarrow> nat \<Rightarrow> nat \<Rightarrow> int \<Rightarrow> acceptor" where
  "move_to_end s i n sfd =
     (let mem = concat (map (int_bytes (big_endian s)) (pi_fd s));
          mem' = memmove mem (4 * i) (4 * (i + 1)) (n - (i + 1))
      in s\<lparr>pi_fd := (map (bytes_int (big_endian s)) (chop4 mem'))[n - 1 := sfd]\<rparr>)"

text \<open>The scan of the listening sockets, over the indices still to visit.\<close>

fun accept_scan ::
  "acceptor \<Rightarrow> round \<Rightarrow> pollfd list \<Rightarrow> nat \<Rightarrow> nat list \<Rightarrow> acceptor \<times> int option" where
  "accept_scan s r ufd n [] = (s, None)"
| "accept_scan s r ufd n (i # rest) =
     (if revents (ufd ! i) = 0 then accept_scan s r ufd n rest
      else
        let sfd = fd (ufd ! i);
            s1 = emit (Accept sfd) s;
            new = accept_ret r sfd
        in if new = - 1 then accept_scan (msg Err ''accept failed (%m)'' s1) r ufd n rest
           else
             let s2 = emit (SetupSocket new) s1;
                 s3 = move_to_end s2 i n sfd
             in (msg Dbg ''accepted socket %d (from socket %d)'' s3, Some new))"

datatype outcome =
    Returns int      \<comment> \<open>the value returned\<close>
  | Blocks           \<comment> \<open>the wait never ends\<close>
  | Overruns         \<comment> \<open>the array has no end mark: the count reads past it\<close>

definition wait_ms :: "int \<Rightarrow> int" where
  \<comment> \<open>\<^verbatim>\<open>(i_wait < 0) ? -1 : i_wait / 1000\<close>, a 64-bit value stored in an \<^verbatim>\<open>int\<close>\<close>
  "wait_ms i_wait =
     (if i_wait < 0 then - 1 else (i_wait sdiv 1000 + 2 ^ 31) mod 2 ^ 32 - 2 ^ 31)"

text \<open>
  The outer loop runs once per element of the script of rounds; \<open>None\<close> says that the
  script ended before the call did.
\<close>

fun accept_loop :: "acceptor \<Rightarrow> int \<Rightarrow> int \<Rightarrow> round list \<Rightarrow> acceptor \<times> outcome option" where
  "accept_loop s timeout evfd [] = (s, None)"
| "accept_loop s timeout evfd (r # rs) =
     (if \<not> alive r then (s, Some (Returns (- 1)))
      else if - 1 \<notin> set (pi_fd s) then (s, Some Overruns)
      else
        let n = length (takeWhile (\<lambda>x. x \<noteq> - 1) (pi_fd s));
            ufd = map (\<lambda>i. \<lparr>fd = (if i < n then pi_fd s ! i else evfd),
                            events = POLLIN, revents = 0\<rparr>) [0..<n + 1]
        in case poll s r ufd n timeout of
             (s1, ufd', None) \<Rightarrow> (s1, Some Blocks)
           | (s1, ufd', Some ret) \<Rightarrow>
               if ret = - 1
               then ((if errno s1 \<noteq> EINTR then msg Err ''poll error: %m'' s1 else s1),
                     Some (Returns (- 1)))
               else if ret = 0 then (s1, Some (Returns (- 1)))
               else if revents (ufd' ! n) \<noteq> 0
               then ((emit ObjectWait s1)\<lparr>errno := EINTR\<rparr>, Some (Returns (- 1)))
               else
                 (case accept_scan s1 r ufd' n [0..<n] of
                    (s2, Some new) \<Rightarrow> (s2, Some (Returns new))
                  | (s2, None) \<Rightarrow> accept_loop s2 timeout evfd rs))"

definition net_Accept :: "acceptor \<Rightarrow> int \<Rightarrow> int \<Rightarrow> round list \<Rightarrow> acceptor \<times> outcome option" where
  "net_Accept s i_wait evfd rounds = accept_loop s (wait_ms i_wait) evfd rounds"

subsection \<open>What a trace shows\<close>

text \<open>
  The descriptors closed, the results of the calls of \<^verbatim>\<open>net_Socket\<close> (one for each
  candidate tried) and the frames written, in order; the events that neither
  create nor close a socket and neither hold nor release a resolved list; and the
  relation between two states of which the second has only such events more.
\<close>

fun closed_fd :: "event \<Rightarrow> int list" where
  "closed_fd (Close s) = [s]"
| "closed_fd e = []"

definition closes :: "event list \<Rightarrow> int list" where
  "closes tr = concat (map closed_fd tr)"

fun socket_result :: "event \<Rightarrow> int list" where
  "socket_result (Socket fam ty pr s) = [s]"
| "socket_result e = []"

definition tried :: "event list \<Rightarrow> int list" where
  "tried tr = concat (map socket_result tr)"

fun written :: "event \<Rightarrow> byte list list" where
  "written (Write s b) = [b]"
| "written e = []"

definition writes :: "event list \<Rightarrow> byte list list" where
  "writes tr = concat (map written tr)"

fun quiet_event :: "event \<Rightarrow> bool" where
  "quiet_event (Msg l s) = True"
| "quiet_event (Write s b) = True"
| "quiet_event (Read s n b) = True"
| "quiet_event (Connect s) = True"
| "quiet_event (Poll ss t) = True"
| "quiet_event (SoError s) = True"
| "quiet_event e = False"

definition quiet_ext :: "'a proc_scheme \<Rightarrow> 'a proc_scheme \<Rightarrow> bool" where
  "quiet_ext c c' =
     (take (length (trace c)) (trace c') = trace c
      \<and> list_all quiet_event (drop (length (trace c)) (trace c')))"

section \<open>Scenarios\<close>

text \<open>Concrete peers, listening sets and rounds on which the functions are run below.\<close>

definition peer :: "byte list \<Rightarrow> chan" where
  \<comment> \<open>a proxy that answers with the given bytes and takes up to 1000 bytes\<close>
  "peer answer = \<lparr>trace = [], inbuf = answer, wcap = 1000, gai_inet = (\<lambda>h. (1, []))\<rparr>"

definition listeners3 :: acceptor where
  "listeners3 = \<lparr>trace = [], pi_fd = [3, 4, 5, - 1], errno = 0, big_endian = False\<rparr>"

definition all_ready :: round where
  \<comment> \<open>every listening socket has a connection waiting; \<^verbatim>\<open>accept\<close> yields 13\<close>
  "all_ready = \<lparr>alive = True, poll_fails = None, readable = [3, 4, 5],
                 accept_ret = (\<lambda>sfd. 13)\<rparr>"

definition woken :: round where
  \<comment> \<open>only the wake-up descriptor 9 of the object is readable\<close>
  "woken = \<lparr>alive = True, poll_fails = None, readable = [9], accept_ret = (\<lambda>sfd. 13)\<rparr>"


text \<open>
  Worlds for connect calls: three candidates of which the first gets no socket, the
  second is refused and the third connects; one candidate whose connect stays in
  progress, with a timeout of 250 ms, with the object dying after the first wait, and
  with a negative timeout; and a proxy with credentials configured, every integer
  variable of the configuration being 4.
\<close>

definition cand :: "int \<Rightarrow> addrinfo" where
  "cand n = \<lparr>ai_family = 2, ai_socktype = 1, ai_protocol = 6,
             ai_addr = [10, 0, 0, word_of_int n]\<rparr>"

definition no_socket :: attempt where
  "no_socket = \<lparr>sock_fd = - 1, conn_ret = 0, conn_errno = 0, die_at = (\<lambda>k. False),
                 poll_ret = (\<lambda>k. 0), poll_errno = (\<lambda>k. 0), so_ret = 0, so_val = 0\<rparr>"

definition refused :: "int \<Rightarrow> attempt" where
  "refused sk = no_socket\<lparr>sock_fd := sk, conn_ret := - 1, conn_errno := 111\<rparr>"

definition connects :: "int \<Rightarrow> attempt" where
  "connects sk = no_socket\<lparr>sock_fd := sk\<rparr>"

definition pending :: "int \<Rightarrow> attempt" where
  "pending sk = no_socket\<lparr>sock_fd := sk, conn_ret := - 1, conn_errno := EINPROGRESS\<rparr>"

definition world0 :: world where
  "world0 = \<lparr>trace = [], inbuf = [], wcap = 0, gai_inet = (\<lambda>h. (1, [])),
              var_str = (\<lambda>n. None), var_int = (\<lambda>n. 0),
              getaddrinfo = (\<lambda>h p. (1, [])), attempts = (\<lambda>k. no_socket)\<rparr>"

definition abc_world :: world where
  "abc_world = world0\<lparr>getaddrinfo := (\<lambda>h p. (0, [cand 1, cand 2, cand 3])),
                       attempts := (\<lambda>k. if k = 0 then no_socket
                                          else if k = 1 then refused 11 else connects 12)\<rparr>"

definition slow_world :: world where
  "slow_world = world0\<lparr>var_int := (\<lambda>n. 250), attempts := (\<lambda>k. pending 11)\<rparr>"

definition dying_world :: world where
  "dying_world = world0\<lparr>var_int := (\<lambda>n. 250),
                         attempts := (\<lambda>k. (pending 11)\<lparr>die_at := (\<lambda>j. 1 \<le> j)\<rparr>)\<rparr>"

definition negative_world :: world where
  "negative_world = world0\<lparr>var_int := (\<lambda>n. - 5), attempts := (\<lambda>k. pending 11)\<rparr>"

definition proxy_world :: world where
  "proxy_world = world0\<lparr>
     inbuf := [5, 2, 5, 0, 5, 0, 0, 1, 10, 0, 0, 1, 0, 80], wcap := 1000,
     var_str := (\<lambda>n. if n = ''socks'' then Some ''proxy.example:1080''
                       else if n = ''socks-user'' then Some ''alice''
                       else if n = ''socks-pwd'' then Some ''secret'' else None),
     var_int := (\<lambda>n. 4),
     getaddrinfo := (\<lambda>h p. if h = ''proxy.example'' \<and> p = 1080 then (0, [cand 1]) else (1, [])),
     attempts := (\<lambda>k. connects 12)\<rparr>"

definition rejecting_proxy :: world where
  "rejecting_proxy = proxy_world\<lparr>inbuf := [5, 2, 5, 1]\<rparr>"

text \<open>
  Three candidates again, the timeout being 250 ms: the first gets no socket, the
  connect of the second stays in progress until the time is spent, that of the third is
  in progress and done at the first wait. And the proxy with no credentials configured,
  answering the offer with method 2.
\<close>

definition late :: "int \<Rightarrow> attempt" where
  "late sk = (pending sk)\<lparr>poll_ret := (\<lambda>k. 1)\<rparr>"

definition abc_late_world :: world where
  "abc_late_world = world0\<lparr>var_int := (\<lambda>n. 250),
                            getaddrinfo := (\<lambda>h p. (0, [cand 1, cand 2, cand 3])),
                            attempts := (\<lambda>k. if k = 0 then no_socket
                                               else if k = 1 then pending 11 else late 12)\<rparr>"

definition bare_proxy :: world where
  "bare_proxy = proxy_world\<lparr>
     inbuf := [5, 2],
     var_str := (\<lambda>n. if n = ''socks'' then Some ''proxy.example:1080'' else None)\<rparr>"

section \<open>Connecting\<close>

subsection \<open>The poll loop\<close>

declare poll_loop.simps [simp del]

text \<open>
  The timeout is clamped to a value that is not negative before \<^verbatim>\<open>div\<close> splits it, so
  the truncating division of C agrees with \<open>div\<close> and \<open>mod\<close>.
\<close>

lemma sdiv_nonneg: "0 \<le> (t::int) \<Longrightarrow> t sdiv 100 = t div 100"
  by (simp add: signed_divide_int_def sgn_if)

lemma smod_nonneg: "0 \<le> (t::int) \<Longrightarrow> t smod 100 = t mod 100"
  by (simp add: signed_modulo_int_def sgn_if)

text \<open>
  With \<open>q\<close> slices of 100 ms left, a socket that never becomes writable, no failure of
  \<^verbatim>\<open>poll\<close> other than \<^verbatim>\<open>EINTR\<close> and an object that stays alive, the loop waits
  \<open>q\<close> times 100 ms, then once the remainder, and gives the candidate up.
\<close>

lemma poll_loop_timed_out:
  "0 \<le> q \<Longrightarrow>
   \<forall>j \<le> nat q. \<not> die_at a (k + j) \<and> poll_ret a (k + j) \<noteq> 1
        \<and> (poll_ret a (k + j) = - 1 \<longrightarrow> poll_errno a (k + j) = EINTR) \<Longrightarrow>
   poll_loop w a sk q r k =
     (w\<lparr>trace := trace w @ replicate (nat q) (Poll [sk] 100)
                  @ [Poll [sk] r, Msg Warn ''connection timed out'']\<rparr>, NextAi)"
proof (induction "nat q" arbitrary: q k w)
  case 0
  then have q0: "q = 0" by simp
  from "0.prems"(2) q0 have h: "\<not> die_at a k" "poll_ret a k \<noteq> 1"
      "poll_ret a k = - 1 \<longrightarrow> poll_errno a k = EINTR"
    by auto
  show ?case
    using h q0 by (subst poll_loop.simps) (auto simp: emit_def msg_def Let_def)
next
  case (Suc n)
  then have qpos: "0 < q" and nq: "n = nat (q - 1)" by auto
  from Suc.prems(2) have h: "\<not> die_at a k" "poll_ret a k \<noteq> 1"
      "poll_ret a k = - 1 \<longrightarrow> poll_errno a k = EINTR"
    by (auto dest: spec [of _ 0])
  have rest: "\<forall>j \<le> nat (q - 1). \<not> die_at a (Suc k + j) \<and> poll_ret a (Suc k + j) \<noteq> 1
        \<and> (poll_ret a (Suc k + j) = - 1 \<longrightarrow> poll_errno a (Suc k + j) = EINTR)"
  proof (intro allI impI)
    fix j assume "j \<le> nat (q - 1)"
    then have "Suc j \<le> nat q" using qpos by simp
    with Suc.prems(2) show "\<not> die_at a (Suc k + j) \<and> poll_ret a (Suc k + j) \<noteq> 1
        \<and> (poll_ret a (Suc k + j) = - 1 \<longrightarrow> poll_errno a (Suc k + j) = EINTR)"
      by (metis add_Suc_shift)
  qed
  have ih: "poll_loop w' a sk (q - 1) r (Suc k) =
     (w'\<lparr>trace := trace w' @ replicate (nat (q - 1)) (Poll [sk] 100)
                  @ [Poll [sk] r, Msg Warn ''connection timed out'']\<rparr>, NextAi)" for w'
    using Suc.hyps(1) [OF nq _ rest] qpos by simp
  have rep: "replicate (nat q) (Poll [sk] 100) = Poll [sk] 100 # replicate (nat (q - 1)) (Poll [sk] 100)"
    using Suc.hyps(2) nq by (metis replicate_Suc)
  show ?case
    using h qpos by (subst poll_loop.simps) (auto simp: emit_def msg_def Let_def ih rep)
qed

text \<open>
  When the object is found dying before slice \<open>n\<close>, the loop has waited \<open>n\<close>
  times and leaves the call: socket closed, list released.
\<close>

lemma poll_loop_aborted:
  "n \<le> nat q \<Longrightarrow>
   \<forall>j < n. \<not> die_at a (k + j) \<and> poll_ret a (k + j) \<noteq> 1
        \<and> (poll_ret a (k + j) = - 1 \<longrightarrow> poll_errno a (k + j) = EINTR) \<Longrightarrow>
   die_at a (k + n) \<Longrightarrow>
   poll_loop w a sk q r k =
     (w\<lparr>trace := trace w @ replicate n (Poll [sk] 100)
                  @ [Msg Dbg ''connection aborted'', Close sk, FreeAddrInfo]\<rparr>, Aborted)"
proof (induction n arbitrary: q k w)
  case 0
  then show ?case by (subst poll_loop.simps) (simp add: emit_def msg_def)
next
  case (Suc n)
  then have qpos: "0 < q" and nq: "n \<le> nat (q - 1)" by auto
  from Suc.prems(2) have h: "\<not> die_at a k" "poll_ret a k \<noteq> 1"
      "poll_ret a k = - 1 \<longrightarrow> poll_errno a k = EINTR"
    by (auto dest: spec [of _ 0])
  have rest: "\<forall>j < n. \<not> die_at a (Suc k + j) \<and> poll_ret a (Suc k + j) \<noteq> 1
        \<and> (poll_ret a (Suc k + j) = - 1 \<longrightarrow> poll_errno a (Suc k + j) = EINTR)"
  proof (intro allI impI)
    fix j assume "j < n"
    then have "Suc j < Suc n" by simp
    with Suc.prems(2) show "\<not> die_at a (Suc k + j) \<and> poll_ret a (Suc k + j) \<noteq> 1
        \<and> (poll_ret a (Suc k + j) = - 1 \<longrightarrow> poll_errno a (Suc k + j) = EINTR)"
      by (metis add_Suc_shift)
  qed
  have die: "die_at a (Suc k + n)" using Suc.prems(3) by simp
  have ih: "poll_loop w' a sk (q - 1) r (Suc k) =
     (w'\<lparr>trace := trace w' @ replicate n (Poll [sk] 100)
                  @ [Msg Dbg ''connection aborted'', Close sk, FreeAddrInfo]\<rparr>, Aborted)" for w'
    using Suc.IH [OF nq rest die] .
  show ?case
    using h qpos by (subst poll_loop.simps) (auto simp: emit_def msg_def Let_def ih)
qed

lemma attempt_one_timed_out:
  assumes "sock_fd a = sk" "sk \<noteq> - 1" "conn_ret a \<noteq> 0" "conn_errno a = EINPROGRESS"
      and "var_int w ''ipv4-timeout'' = T" "0 \<le> T"
      and "\<forall>j \<le> nat (T div 100). \<not> die_at a j \<and> poll_ret a j \<noteq> 1
              \<and> (poll_ret a j = - 1 \<longrightarrow> poll_errno a j = EINTR)"
  shows "attempt_one w a ptr ty pr =
           (w\<lparr>trace := trace w @
                 [Socket (ai_family ptr) (if ty \<noteq> 0 then ty else ai_socktype ptr)
                         (if pr \<noteq> 0 then pr else ai_protocol ptr) sk,
                  Connect sk, Msg Dbg ''connection: %m'']
                 @ replicate (nat (T div 100)) (Poll [sk] 100)
                 @ [Poll [sk] (T mod 100), Msg Warn ''connection timed out'', Close sk]\<rparr>,
            Continue)"
proof -
  have q: "0 \<le> T div 100" using assms(6) by simp
  have pl: "poll_loop w' a sk (T div 100) (T mod 100) 0 =
     (w'\<lparr>trace := trace w' @ replicate (nat (T div 100)) (Poll [sk] 100)
                  @ [Poll [sk] (T mod 100), Msg Warn ''connection timed out'']\<rparr>, NextAi)" for w'
    using poll_loop_timed_out [OF q, of a 0 w' sk "T mod 100"] assms(7) by simp
  show ?thesis
    using assms(1-6)
    by (simp add: attempt_one_def Let_def emit_def msg_def next_ai_def pl
        sdiv_nonneg smod_nonneg)
qed

lemma attempt_one_aborted:
  assumes "sock_fd a = sk" "sk \<noteq> - 1" "conn_ret a \<noteq> 0" "conn_errno a = EINPROGRESS"
      and "var_int w ''ipv4-timeout'' = T" "0 \<le> T"
      and "n \<le> nat (T div 100)"
      and "\<forall>j < n. \<not> die_at a j \<and> poll_ret a j \<noteq> 1
              \<and> (poll_ret a j = - 1 \<longrightarrow> poll_errno a j = EINTR)"
      and "die_at a n"
  shows "attempt_one w a ptr ty pr =
           (w\<lparr>trace := trace w @
                 [Socket (ai_family ptr) (if ty \<noteq> 0 then ty else ai_socktype ptr)
                         (if pr \<noteq> 0 then pr else ai_protocol ptr) sk,
                  Connect sk, Msg Dbg ''connection: %m'']
                 @ replicate n (Poll [sk] 100)
                 @ [Msg Dbg ''connection aborted'', Close sk, FreeAddrInfo]\<rparr>,
            Return)"
proof -
  have pl: "poll_loop w' a sk (T div 100) (T mod 100) 0 =
     (w'\<lparr>trace := trace w' @ replicate n (Poll [sk] 100)
                  @ [Msg Dbg ''connection aborted'', Close sk, FreeAddrInfo]\<rparr>, Aborted)" for w'
    using poll_loop_aborted [OF assms(7), of a 0 w' sk "T mod 100"] assms(8,9) by simp
  show ?thesis
    using assms(1-6)
    by (simp add: attempt_one_def Let_def emit_def msg_def next_ai_def pl
        sdiv_nonneg smod_nonneg)
qed

text \<open>
  C8. For a candidate whose connect is in progress, with the configured timeout
  \<open>T \<ge> 0\<close> and no wait that ends in writability or in an error other than
  \<^verbatim>\<open>EINTR\<close>: if the object stays alive, the waits are \<open>T div 100\<close> slices of 100 ms
  and a last one of \<open>T mod 100\<close> ms, then the warning is logged, the socket is closed
  and the loop goes on with the next candidate; and the liveness flag is read before
  every slice: if it is first found set before slice \<open>n\<close>, exactly \<open>n\<close> slices of
  100 ms have been waited and the call ends there, socket closed and list released.
\<close>

theorem connect_waits_in_slices:
  assumes "attempts w k = a" "sock_fd a = sk" "sk \<noteq> - 1"
      and "conn_ret a \<noteq> 0" "conn_errno a = EINPROGRESS"
      and "var_int w ''ipv4-timeout'' = T" "0 \<le> T"
      and "\<forall>j \<le> nat (T div 100). poll_ret a j \<noteq> 1
              \<and> (poll_ret a j = - 1 \<longrightarrow> poll_errno a j = EINTR)"
  shows "((\<forall>j \<le> nat (T div 100). \<not> die_at a j) \<longrightarrow>
            connect_loop w (ptr # rest) k ty pr =
            connect_loop
              (w\<lparr>trace := trace w @
                 [Socket (ai_family ptr) (if ty \<noteq> 0 then ty else ai_socktype ptr)
                         (if pr \<noteq> 0 then pr else ai_protocol ptr) sk,
                  Connect sk, Msg Dbg ''connection: %m'']
                 @ replicate (nat (T div 100)) (Poll [sk] 100)
                 @ [Poll [sk] (T mod 100), Msg Warn ''connection timed out'', Close sk]\<rparr>)
              rest (Suc k) ty pr)
       \<and> (\<forall>n \<le> nat (T div 100). (\<forall>j < n. \<not> die_at a j) \<and> die_at a n \<longrightarrow>
            connect_loop w (ptr # rest) k ty pr =
              (w\<lparr>trace := trace w @
                 [Socket (ai_family ptr) (if ty \<noteq> 0 then ty else ai_socktype ptr)
                         (if pr \<noteq> 0 then pr else ai_protocol ptr) sk,
                  Connect sk, Msg Dbg ''connection: %m'']
                 @ replicate n (Poll [sk] 100)
                 @ [Msg Dbg ''connection aborted'', Close sk, FreeAddrInfo]\<rparr>,
               None))"
proof (intro conjI allI impI)
  assume live: "\<forall>j \<le> nat (T div 100). \<not> die_at a j"
  have "\<forall>j \<le> nat (T div 100). \<not> die_at a j \<and> poll_ret a j \<noteq> 1
              \<and> (poll_ret a j = - 1 \<longrightarrow> poll_errno a j = EINTR)"
    using live assms(8) by blast
  from attempt_one_timed_out [OF assms(2-7) this, of ptr ty pr] assms(1)
  show "connect_loop w (ptr # rest) k ty pr =
            connect_loop
              (w\<lparr>trace := trace w @
                 [Socket (ai_family ptr) (if ty \<noteq> 0 then ty else ai_socktype ptr)
                         (if pr \<noteq> 0 then pr else ai_protocol ptr) sk,
                  Connect sk, Msg Dbg ''connection: %m'']
                 @ replicate (nat (T div 100)) (Poll [sk] 100)
                 @ [Poll [sk] (T mod 100), Msg Warn ''connection timed out'', Close sk]\<rparr>)
              rest (Suc k) ty pr"
    by simp
next
  fix n
  assume n: "n \<le> nat (T div 100)" and d: "(\<forall>j < n. \<not> die_at a j) \<and> die_at a n"
  have "\<forall>j < n. \<not> die_at a j \<and> poll_ret a j \<noteq> 1
              \<and> (poll_ret a j = - 1 \<longrightarrow> poll_errno a j = EINTR)"
    using d n assms(8) by (meson less_le_trans less_imp_le)
  from attempt_one_aborted [OF assms(2-7) n this, of ptr ty pr] d assms(1)
  show "connect_loop w (ptr # rest) k ty pr =
              (w\<lparr>trace := trace w @
                 [Socket (ai_family ptr) (if ty \<noteq> 0 then ty else ai_socktype ptr)
                         (if pr \<noteq> 0 then pr else ai_protocol ptr) sk,
                  Connect sk, Msg Dbg ''connection: %m'']
                 @ replicate n (Poll [sk] 100)
                 @ [Msg Dbg ''connection aborted'', Close sk, FreeAddrInfo]\<rparr>,
               None)"
    by simp
qed

text \<open>
  The theorem at a timeout of 250 ms: waits of 100, 100 and 50 ms, then the next
  candidate (there is none); and, with the object dying after the first wait, one wait
  of 100 ms.
\<close>

theorem connect_waits_in_slices_witness:
  "connect_loop slow_world [cand 1] 0 0 0 =
     (slow_world\<lparr>trace :=
        [Socket 2 1 6 11, Connect 11, Msg Dbg ''connection: %m'',
         Poll [11] 100, Poll [11] 100, Poll [11] 50,
         Msg Warn ''connection timed out'', Close 11]\<rparr>, Some (- 1))
   \<and> connect_loop dying_world [cand 1] 0 0 0 =
     (dying_world\<lparr>trace :=
        [Socket 2 1 6 11, Connect 11, Msg Dbg ''connection: %m'',
         Poll [11] 100, Msg Dbg ''connection aborted'', Close 11, FreeAddrInfo]\<rparr>, None)"
proof -
  have t: "trace slow_world = []" "trace dying_world = []" by code_simp+
  have a: "attempts slow_world 0 = pending 11"
    by (simp add: slow_world_def world0_def)
  have b: "attempts dying_world 0 = (pending 11)\<lparr>die_at := (\<lambda>j. 1 \<le> j)\<rparr>"
    by (simp add: dying_world_def world0_def)
  have v: "var_int slow_world ''ipv4-timeout'' = 250" "var_int dying_world ''ipv4-timeout'' = 250"
    by code_simp+
  have p: "sock_fd (pending 11) = 11" "(11::int) \<noteq> - 1" "conn_ret (pending 11) \<noteq> 0"
    "conn_errno (pending 11) = EINPROGRESS"
    by code_simp+
  have q: "sock_fd ((pending 11)\<lparr>die_at := (\<lambda>j. 1 \<le> j)\<rparr>) = 11"
    "conn_ret ((pending 11)\<lparr>die_at := (\<lambda>j. 1 \<le> j)\<rparr>) \<noteq> 0"
    "conn_errno ((pending 11)\<lparr>die_at := (\<lambda>j. 1 \<le> j)\<rparr>) = EINPROGRESS"
    by code_simp+
  have quiet: "\<forall>j \<le> nat (250 div 100). poll_ret (pending 11) j \<noteq> 1
                 \<and> (poll_ret (pending 11) j = - 1 \<longrightarrow> poll_errno (pending 11) j = EINTR)"
    by (simp add: pending_def no_socket_def)
  have quiet': "\<forall>j \<le> nat (250 div 100).
                  poll_ret ((pending 11)\<lparr>die_at := (\<lambda>j. 1 \<le> j)\<rparr>) j \<noteq> 1
                 \<and> (poll_ret ((pending 11)\<lparr>die_at := (\<lambda>j. 1 \<le> j)\<rparr>) j = - 1
                      \<longrightarrow> poll_errno ((pending 11)\<lparr>die_at := (\<lambda>j. 1 \<le> j)\<rparr>) j = EINTR)"
    by (simp add: pending_def no_socket_def)
  have live: "\<forall>j \<le> nat (250 div 100). \<not> die_at (pending 11) j"
    by (simp add: pending_def no_socket_def)
  have one: "(1::nat) \<le> nat (250 div 100)" by simp
  have dies: "(\<forall>j < 1. \<not> die_at ((pending 11)\<lparr>die_at := (\<lambda>j. 1 \<le> j)\<rparr>) j)
              \<and> die_at ((pending 11)\<lparr>die_at := (\<lambda>j. 1 \<le> j)\<rparr>) 1"
    by simp
  from connect_waits_in_slices
         [OF a p(1,2,3,4) v(1) _ quiet, where ptr = "cand 1" and ty = 0 and pr = 0 and rest = "[]"] live
  have first: "connect_loop slow_world [cand 1] 0 0 0 =
     (slow_world\<lparr>trace :=
        [Socket 2 1 6 11, Connect 11, Msg Dbg ''connection: %m'',
         Poll [11] 100, Poll [11] 100, Poll [11] 50,
         Msg Warn ''connection timed out'', Close 11]\<rparr>, Some (- 1))"
    by (simp add: t cand_def numeral_2_eq_2)
  from connect_waits_in_slices
         [OF b q(1) p(2) q(2,3) v(2) _ quiet', where ptr = "cand 1" and ty = 0 and pr = 0 and rest = "[]"]
  have "\<forall>n \<le> nat (250 div 100).
          (\<forall>j < n. \<not> die_at ((pending 11)\<lparr>die_at := (\<lambda>j. 1 \<le> j)\<rparr>) j)
          \<and> die_at ((pending 11)\<lparr>die_at := (\<lambda>j. 1 \<le> j)\<rparr>) n \<longrightarrow>
          connect_loop dying_world [cand 1] 0 0 0 =
            (dying_world\<lparr>trace := trace dying_world @
               [Socket (ai_family (cand 1)) (if (0::int) \<noteq> 0 then 0 else ai_socktype (cand 1))
                       (if (0::int) \<noteq> 0 then 0 else ai_protocol (cand 1)) 11,
                Connect 11, Msg Dbg ''connection: %m'']
               @ replicate n (Poll [11] 100)
               @ [Msg Dbg ''connection aborted'', Close 11, FreeAddrInfo]\<rparr>, None)"
    by simp
  from this [rule_format, OF one dies]
  have second: "connect_loop dying_world [cand 1] 0 0 0 =
     (dying_world\<lparr>trace :=
        [Socket 2 1 6 11, Connect 11, Msg Dbg ''connection: %m'',
         Poll [11] 100, Msg Dbg ''connection aborted'', Close 11, FreeAddrInfo]\<rparr>, None)"
    by (simp add: t cand_def)
  from first second show ?thesis by (rule conjI)
qed

text \<open>
  C10. A negative configured timeout is logged as an error and taken as zero: a
  candidate whose connect is in progress gets one wait of 0 ms and, unless that wait
  reports writability or fails, is given up as timed out, and the loop goes on with
  the next candidate.
\<close>

theorem connect_negative_timeout:
  assumes "attempts w k = a" "sock_fd a = sk" "sk \<noteq> - 1"
      and "conn_ret a \<noteq> 0" "conn_errno a = EINPROGRESS"
      and "var_int w ''ipv4-timeout'' < 0"
      and "\<not> die_at a 0" "poll_ret a 0 \<noteq> 1"
      and "poll_ret a 0 = - 1 \<longrightarrow> poll_errno a 0 = EINTR"
  shows "connect_loop w (ptr # rest) k ty pr =
           connect_loop
             (w\<lparr>trace := trace w @
                [Socket (ai_family ptr) (if ty \<noteq> 0 then ty else ai_socktype ptr)
                        (if pr \<noteq> 0 then pr else ai_protocol ptr) sk,
                 Connect sk, Msg Dbg ''connection: %m'',
                 Msg Err ''invalid negative value for ipv4-timeout'',
                 Poll [sk] 0, Msg Warn ''connection timed out'', Close sk]\<rparr>)
             rest (Suc k) ty pr"
proof -
  have pl: "poll_loop w' a sk 0 0 0 =
     (w'\<lparr>trace := trace w' @ [Poll [sk] 0, Msg Warn ''connection timed out'']\<rparr>, NextAi)" for w'
    using poll_loop_timed_out [of 0 a 0 w' sk 0] assms(7-9) by simp
  have "attempt_one w a ptr ty pr =
          (w\<lparr>trace := trace w @
                [Socket (ai_family ptr) (if ty \<noteq> 0 then ty else ai_socktype ptr)
                        (if pr \<noteq> 0 then pr else ai_protocol ptr) sk,
                 Connect sk, Msg Dbg ''connection: %m'',
                 Msg Err ''invalid negative value for ipv4-timeout'',
                 Poll [sk] 0, Msg Warn ''connection timed out'', Close sk]\<rparr>, Continue)"
    using assms(2-6)
    by (simp add: attempt_one_def Let_def emit_def msg_def next_ai_def pl)
  then show ?thesis using assms(1) by simp
qed

text \<open>
  The theorem at a timeout of -5 ms.
\<close>

theorem connect_negative_timeout_witness:
  "connect_loop negative_world [cand 1] 0 0 0 =
     (negative_world\<lparr>trace :=
        [Socket 2 1 6 11, Connect 11, Msg Dbg ''connection: %m'',
         Msg Err ''invalid negative value for ipv4-timeout'',
         Poll [11] 0, Msg Warn ''connection timed out'', Close 11]\<rparr>, Some (- 1))"
proof -
  have t: "trace negative_world = []" by code_simp
  have a: "attempts negative_world 0 = pending 11"
    by (simp add: negative_world_def world0_def)
  have v: "var_int negative_world ''ipv4-timeout'' < 0" by code_simp
  have p: "sock_fd (pending 11) = 11" "(11::int) \<noteq> - 1" "conn_ret (pending 11) \<noteq> 0"
    "conn_errno (pending 11) = EINPROGRESS" "\<not> die_at (pending 11) 0"
    "poll_ret (pending 11) 0 \<noteq> 1"
    by code_simp+
  have e: "poll_ret (pending 11) 0 = - 1 \<longrightarrow> poll_errno (pending 11) 0 = EINTR"
    by (simp add: pending_def no_socket_def)
  show ?thesis
    using connect_negative_timeout
            [OF a p(1,2,3,4) v p(5,6) e, where ptr = "cand 1" and ty = 0 and pr = 0 and rest = "[]"]
    by (simp add: t cand_def)
qed

subsection \<open>Sockets and resolved lists\<close>

text \<open>
  Every function between the resolver and the handshake changes the world by adding
  events to the trace and nothing else; the lemmas say which sockets and lists the added
  events leave behind.
\<close>

lemma poll_loop_frame:
  "poll_loop w a sk q r k = (w', ex) \<Longrightarrow>
   \<exists>es. w' = w\<lparr>trace := trace w @ es\<rparr>
      \<and> (\<forall>os. foldl track os es = (if ex = Aborted then remove1 sk os else os))
      \<and> (\<forall>n. foldl held n es = (if ex = Aborted then n - 1 else n))"
proof (induction w a sk q r k arbitrary: w' ex rule: poll_loop.induct)
  case (1 w a sk q r k)
  let ?p = "Poll [sk] (if 0 < q then 100 else r)"
  show ?case
  proof (cases "die_at a k")
    case True
    with "1.prems" have "w' = w\<lparr>trace := trace w @ [Msg Dbg ''connection aborted'', Close sk, FreeAddrInfo]\<rparr>"
      and "ex = Aborted"
      by (simp_all add: poll_loop.simps [of w a sk q r k] emit_def msg_def)
    then show ?thesis
      by (intro exI [of _ "[Msg Dbg ''connection aborted'', Close sk, FreeAddrInfo]"]) simp
  next
    case alive: False
    show ?thesis
    proof (cases "poll_ret a k = 1")
      case True
      with alive "1.prems" have "w' = w\<lparr>trace := trace w @ [?p]\<rparr>" and "ex = Writable"
        by (simp_all add: poll_loop.simps [of w a sk q r k] emit_def Let_def)
      then show ?thesis by (intro exI [of _ "[?p]"]) simp
    next
      case nready: False
      show ?thesis
      proof (cases "poll_ret a k = - 1 \<and> poll_errno a k \<noteq> EINTR")
        case True
        with alive nready "1.prems"
        have "w' = w\<lparr>trace := trace w @ [?p, Msg Err ''connection polling error: %m'']\<rparr>"
          and "ex = NextAi"
          by (simp_all add: poll_loop.simps [of w a sk q r k] emit_def msg_def Let_def)
        then show ?thesis
          by (intro exI [of _ "[?p, Msg Err ''connection polling error: %m'']"]) simp
      next
        case noerr: False
        show ?thesis
        proof (cases "q \<le> 0")
          case True
          with alive nready noerr "1.prems"
          have "w' = w\<lparr>trace := trace w @ [?p, Msg Warn ''connection timed out'']\<rparr>"
            and "ex = NextAi"
            by (auto simp: poll_loop.simps [of w a sk q r k] emit_def msg_def Let_def)
          then show ?thesis
            by (intro exI [of _ "[?p, Msg Warn ''connection timed out'']"]) simp
        next
          case more: False
          let ?w1 = "emit ?p w"
          from alive nready noerr more "1.prems"
          have rec: "poll_loop ?w1 a sk (q - 1) r (Suc k) = (w', ex)"
            by (auto simp: poll_loop.simps [of w a sk q r k] Let_def)
          from "1.IH" [OF alive refl refl nready noerr more rec]
          obtain es where es: "w' = ?w1\<lparr>trace := trace ?w1 @ es\<rparr>"
            "\<forall>os. foldl track os es = (if ex = Aborted then remove1 sk os else os)"
            "\<forall>n. foldl held n es = (if ex = Aborted then n - 1 else n)"
            by blast
          show ?thesis
            using es by (intro exI [of _ "?p # es"]) (simp add: emit_def)
        qed
      qed
    qed
  qed
qed

lemma attempt_one_frame:
  assumes run: "attempt_one w a ptr ty pr = (w', st)"
  shows "\<exists>es. w' = w\<lparr>trace := trace w @ es\<rparr>
      \<and> (\<forall>os. foldl track os es = (case st of Break h \<Rightarrow> h # os | _ \<Rightarrow> os))
      \<and> (\<forall>n. foldl held n es = (case st of Return \<Rightarrow> n - 1 | _ \<Rightarrow> n))
      \<and> (\<forall>h. st = Break h \<longrightarrow> h \<noteq> - 1)"
proof -
  let ?sk = "sock_fd a"
  let ?so = "Socket (ai_family ptr) (if ty \<noteq> 0 then ty else ai_socktype ptr)
                    (if pr \<noteq> 0 then pr else ai_protocol ptr) ?sk"
  show ?thesis
  proof (cases "?sk = - 1")
    case True
    with run have "w' = w\<lparr>trace := trace w @ [?so, Msg Dbg ''socket error: %m'']\<rparr>"
      and "st = Continue"
      by (simp_all add: attempt_one_def Let_def emit_def msg_def)
    then show ?thesis using True
      by (intro exI [of _ "[?so, Msg Dbg ''socket error: %m'']"]) simp
  next
    case sk: False
    show ?thesis
    proof (cases "conn_ret a = 0")
      case True
      with run sk
      have "w' = w\<lparr>trace := trace w @ [?so, Connect ?sk,
                   Msg Dbg ''connection succeeded (socket = %d)'']\<rparr>"
        and "st = Break ?sk"
        by (simp_all add: attempt_one_def Let_def emit_def msg_def succeeded_def)
      then show ?thesis using sk
        by (intro exI [of _ "[?so, Connect ?sk,
                   Msg Dbg ''connection succeeded (socket = %d)'']"]) simp
    next
      case conn: False
      show ?thesis
      proof (cases "conn_errno a = EINPROGRESS")
        case False
        with run sk conn
        have "w' = w\<lparr>trace := trace w @ [?so, Connect ?sk,
                   Msg Err ''connection failed: %m'', Close ?sk]\<rparr>"
          and "st = Continue"
          by (simp_all add: attempt_one_def Let_def emit_def msg_def next_ai_def)
        then show ?thesis using sk
          by (intro exI [of _ "[?so, Connect ?sk,
                   Msg Err ''connection failed: %m'', Close ?sk]"]) simp
      next
        case prog: True
        let ?t = "var_int w ''ipv4-timeout''"
        let ?t' = "if ?t < 0 then 0 else ?t"
        let ?pre = "[?so, Connect ?sk, Msg Dbg ''connection: %m'']
                    @ (if ?t < 0 then [Msg Err ''invalid negative value for ipv4-timeout''] else [])"
        let ?w4 = "w\<lparr>trace := trace w @ ?pre\<rparr>"
        obtain w5 ex where pl: "poll_loop ?w4 a ?sk (?t' sdiv 100) (?t' smod 100) 0 = (w5, ex)"
          by (cases "poll_loop ?w4 a ?sk (?t' sdiv 100) (?t' smod 100) 0")
        from poll_loop_frame [OF pl] obtain es where
          es: "w5 = ?w4\<lparr>trace := trace ?w4 @ es\<rparr>"
              "\<forall>os. foldl track os es = (if ex = Aborted then remove1 ?sk os else os)"
              "\<forall>n. foldl held n es = (if ex = Aborted then n - 1 else n)"
          by blast
        have unfold: "attempt_one w a ptr ty pr =
            (case ex of
               Aborted \<Rightarrow> (w5, Return)
             | NextAi \<Rightarrow> next_ai w5 ?sk
             | Writable \<Rightarrow>
                 (if so_ret a = - 1 \<or> so_val a \<noteq> 0
                  then next_ai (msg Err ''connection failed: %m'' (emit (SoError ?sk) w5)) ?sk
                  else succeeded (emit (SoError ?sk) w5) ?sk))"
          using sk conn prog pl
          by (cases "?t < 0")
             (simp_all add: attempt_one_def Let_def emit_def msg_def split: loop_exit.split)
        show ?thesis
        proof (cases ex)
          case Aborted
          with unfold run have "w' = w5" "st = Return" by simp_all
          with es Aborted sk show ?thesis
            by (intro exI [of _ "?pre @ es"]) simp
        next
          case NextAi
          with unfold run have "w' = emit (Close ?sk) w5" "st = Continue"
            by (simp_all add: next_ai_def)
          with es NextAi sk show ?thesis
            by (intro exI [of _ "?pre @ es @ [Close ?sk]"]) (simp add: emit_def)
        next
          case Writable
          show ?thesis
          proof (cases "so_ret a = - 1 \<or> so_val a \<noteq> 0")
            case True
            with unfold run Writable
            have "w' = emit (Close ?sk) (msg Err ''connection failed: %m'' (emit (SoError ?sk) w5))"
              "st = Continue"
              by (simp_all add: next_ai_def)
            with es Writable sk show ?thesis
              by (intro exI [of _ "?pre @ es @ [SoError ?sk, Msg Err ''connection failed: %m'',
                                                Close ?sk]"])
                 (simp add: emit_def msg_def)
          next
            case False
            with unfold run Writable
            have "w' = msg Dbg ''connection succeeded (socket = %d)'' (emit (SoError ?sk) w5)"
              "st = Break ?sk"
              by (simp_all add: succeeded_def)
            with es Writable sk show ?thesis
              by (intro exI [of _ "?pre @ es @ [SoError ?sk,
                                    Msg Dbg ''connection succeeded (socket = %d)'']"])
                 (simp add: emit_def msg_def)
          qed
        qed
      qed
    qed
  qed
qed

lemma connect_loop_frame:
  "connect_loop w res k ty pr = (w', r) \<Longrightarrow>
   \<exists>es. w' = w\<lparr>trace := trace w @ es\<rparr>
      \<and> (\<forall>os. foldl track os es =
                 (case r of None \<Rightarrow> os | Some h \<Rightarrow> if h = - 1 then os else h # os))
      \<and> (\<forall>n. foldl held n es = (case r of None \<Rightarrow> n - 1 | Some h \<Rightarrow> n))"
proof (induction res arbitrary: w k w' r)
  case Nil
  then show ?case by (intro exI [of _ "[]"]) auto
next
  case (Cons ptr rest)
  obtain w1 st where a1: "attempt_one w (attempts w k) ptr ty pr = (w1, st)"
    by (cases "attempt_one w (attempts w k) ptr ty pr")
  from attempt_one_frame [OF a1] obtain es1 where
    es1: "w1 = w\<lparr>trace := trace w @ es1\<rparr>"
         "\<forall>os. foldl track os es1 = (case st of Break h \<Rightarrow> h # os | _ \<Rightarrow> os)"
         "\<forall>n. foldl held n es1 = (case st of Return \<Rightarrow> n - 1 | _ \<Rightarrow> n)"
         "\<forall>h. st = Break h \<longrightarrow> h \<noteq> - 1"
    by blast
  show ?case
  proof (cases st)
    case Continue
    with Cons.prems a1 have "connect_loop w1 rest (Suc k) ty pr = (w', r)" by simp
    from Cons.IH [OF this] obtain es2 where
      es2: "w' = w1\<lparr>trace := trace w1 @ es2\<rparr>"
           "\<forall>os. foldl track os es2 =
                 (case r of None \<Rightarrow> os | Some h \<Rightarrow> if h = - 1 then os else h # os)"
           "\<forall>n. foldl held n es2 = (case r of None \<Rightarrow> n - 1 | Some h \<Rightarrow> n)"
      by blast
    with es1 Continue show ?thesis
      by (intro exI [of _ "es1 @ es2"]) simp
  next
    case (Break h)
    with Cons.prems a1 have "w' = w1" "r = Some h" by simp_all
    with es1 Break show ?thesis
      by (intro exI [of _ es1]) simp
  next
    case Return
    with Cons.prems a1 have "w' = w1" "r = None" by simp_all
    with es1 Return show ?thesis
      by (intro exI [of _ es1]) simp
  qed
qed

text \<open>
  The handshake only logs, writes and reads.
\<close>

lemma quiet_track: "list_all quiet_event es \<Longrightarrow> foldl track os es = os"
proof (induction es arbitrary: os)
  case Nil
  show ?case by simp
next
  case (Cons e es)
  then show ?case by (cases e) simp_all
qed

lemma quiet_held: "list_all quiet_event es \<Longrightarrow> foldl held n es = n"
proof (induction es arbitrary: n)
  case Nil
  show ?case by simp
next
  case (Cons e es)
  then show ?case by (cases e) simp_all
qed

lemma quiet_ext_iff:
  "quiet_ext c c' \<longleftrightarrow> (\<exists>es. trace c' = trace c @ es \<and> list_all quiet_event es)"
proof
  assume q: "quiet_ext c c'"
  have "trace c' = take (length (trace c)) (trace c') @ drop (length (trace c)) (trace c')"
    by simp
  with q have "trace c' = trace c @ drop (length (trace c)) (trace c')"
    by (simp add: quiet_ext_def)
  moreover from q have "list_all quiet_event (drop (length (trace c)) (trace c'))"
    by (simp add: quiet_ext_def)
  ultimately show "\<exists>es. trace c' = trace c @ es \<and> list_all quiet_event es"
    by blast
next
  assume "\<exists>es. trace c' = trace c @ es \<and> list_all quiet_event es"
  then show "quiet_ext c c'"
    by (auto simp: quiet_ext_def)
qed

lemma quiet_ext_refl: "quiet_ext c c"
  by (simp add: quiet_ext_iff)

lemma quiet_ext_pair: "quiet_ext c c1 \<Longrightarrow> quiet_ext c (fst (c1, r))"
  by simp

lemma quiet_ext_msg: "quiet_ext c c1 \<Longrightarrow> quiet_ext c (msg l s c1)"
  by (auto simp: quiet_ext_iff msg_def)

lemma quiet_ext_write: "quiet_ext c c1 \<Longrightarrow> quiet_ext c (fst (net_Write c1 sk b n))"
  by (auto simp: quiet_ext_iff net_Write_def Let_def)

lemma quiet_ext_read: "quiet_ext c c1 \<Longrightarrow> quiet_ext c (fst (net_Read c1 sk n))"
  by (auto simp: quiet_ext_iff net_Read_def Let_def)

lemma quiet_ext_if:
  "quiet_ext c (fst x) \<Longrightarrow> quiet_ext c (fst y) \<Longrightarrow> quiet_ext c (fst (if b then x else y))"
  by simp

lemma quiet_ext_if_state:
  "quiet_ext c x \<Longrightarrow> quiet_ext c y \<Longrightarrow> quiet_ext c (if b then x else y)"
  by simp

lemmas quiet_ext_intros =
  quiet_ext_if quiet_ext_pair quiet_ext_msg quiet_ext_write quiet_ext_read quiet_ext_if_state

lemma socks_userpass_quiet:
  assumes "quiet_ext c c1"
  shows "quiet_ext c (fst (socks_userpass c1 sk v u p))"
proof (cases u)
  case None
  with assms show ?thesis by (simp add: socks_userpass_def)
next
  case u: (Some user)
  show ?thesis
  proof (cases p)
    case None
    with assms u show ?thesis by (simp add: socks_userpass_def)
  next
    case (Some passwd)
    show ?thesis
      unfolding socks_userpass_def u Some option.case Let_def split_beta
      by (intro quiet_ext_intros assms)
  qed
qed

lemma SocksNegociate_quiet:
  assumes "quiet_ext c c1"
  shows "quiet_ext c (fst (SocksNegociate c1 sk v u p))"
  unfolding SocksNegociate_def Let_def split_beta
  by (intro quiet_ext_intros socks_userpass_quiet assms)

lemma socks5_request_quiet:
  assumes "quiet_ext c c1"
  shows "quiet_ext c (fst (socks5_request c1 sk v h port))"
  unfolding socks5_request_def Let_def split_beta
  by (intro quiet_ext_intros assms)

lemma quiet_ext_sum_case:
  "(\<And>f. quiet_ext c (fst (l f))) \<Longrightarrow> (\<And>rc. quiet_ext c (fst (r rc))) \<Longrightarrow>
   quiet_ext c (fst (case x of Inl f \<Rightarrow> l f | Inr rc \<Rightarrow> r rc))"
  by (cases x) simp_all

lemma SocksHandshakeTCP_quiet:
  "quiet_ext c (fst (SocksHandshakeTCP c sk 5 u p h port))"
  unfolding SocksHandshakeTCP_def Let_def split_beta
  by (simp del: One_nat_def)
     (intro quiet_ext_sum_case quiet_ext_intros SocksNegociate_quiet socks5_request_quiet
        quiet_ext_refl)

lemma connect_resolved_frame:
  assumes run: "connect_resolved w socks rh rp host port ty pr = (w', Inr h)"
  shows "\<exists>es. trace w' = trace w @ es
      \<and> (\<forall>os. foldl track os es = (if h = - 1 then os else h # os))
      \<and> (\<forall>n. foldl held n es = n)"
proof -
  obtain i_val res where gai: "getaddrinfo w rh rp = (i_val, res)"
    by (cases "getaddrinfo w rh rp")
  let ?w1 = "emit (Resolve rh rp i_val) w"
  show ?thesis
  proof (cases "i_val = 0")
    case False
    with run gai have "w' = msg Err ''cannot resolve %s port %d : %s'' ?w1" "h = - 1"
      by (simp_all add: connect_resolved_def Let_def)
    then show ?thesis using False
      by (intro exI [of _ "[Resolve rh rp i_val, Msg Err ''cannot resolve %s port %d : %s'']"])
         (simp add: emit_def msg_def)
  next
    case ok: True
    obtain w2 r where cl: "connect_loop ?w1 res 0 ty pr = (w2, r)"
      by (cases "connect_loop ?w1 res 0 ty pr")
    from connect_loop_frame [OF cl] obtain es2 where
      es2: "w2 = ?w1\<lparr>trace := trace ?w1 @ es2\<rparr>"
           "\<forall>os. foldl track os es2 =
                 (case r of None \<Rightarrow> os | Some h \<Rightarrow> if h = - 1 then os else h # os)"
           "\<forall>n. foldl held n es2 = (case r of None \<Rightarrow> n - 1 | Some h \<Rightarrow> n)"
      by blast
    have t2: "trace w2 = trace w @ Resolve rh rp 0 # es2"
      using es2(1) ok by (simp add: emit_def)
    show ?thesis
    proof (cases r)
      case None
      with run gai ok cl have "w' = w2" "h = - 1"
        by (simp_all add: connect_resolved_def Let_def)
      with t2 es2 None show ?thesis
        by (intro exI [of _ "Resolve rh rp 0 # es2"]) simp
    next
      case (Some ih)
      let ?w3 = "emit FreeAddrInfo w2"
      have t3: "trace ?w3 = trace w @ Resolve rh rp 0 # es2 @ [FreeAddrInfo]"
        using t2 by (simp add: emit_def)
      have direct: "w' = ?w3 \<Longrightarrow> h = ih \<Longrightarrow> ?thesis"
        using t3 es2 Some
        by (intro exI [of _ "Resolve rh rp 0 # es2 @ [FreeAddrInfo]"]) simp
      show ?thesis
      proof (cases "ih = - 1 \<or> \<not> socks")
        case True
        with run gai ok cl Some have "w' = ?w3" "h = ih"
          by (auto simp: connect_resolved_def Let_def split: if_splits)
        then show ?thesis by (rule direct)
      next
        case False
        then have ih: "ih \<noteq> - 1" and socks: socks by simp_all
        let ?u = "var_CreateGetNonEmptyString ?w3 ''socks-user''"
        let ?p = "var_CreateGetNonEmptyString ?w3 ''socks-pwd''"
        obtain w4 rr where hs: "SocksHandshakeTCP ?w3 ih 5 ?u ?p host port = (w4, rr)"
          by (cases "SocksHandshakeTCP ?w3 ih 5 ?u ?p host port")
        from SocksHandshakeTCP_quiet [of ?w3 ih ?u ?p host port] hs
        obtain esq where esq: "trace w4 = trace ?w3 @ esq" "list_all quiet_event esq"
          by (auto simp: quiet_ext_iff)
        have q: "foldl track os esq = os" "foldl held n esq = n" for os n
          using esq(2) by (simp_all add: quiet_track quiet_held)
        from run gai ok cl Some ih socks hs
        have res: "(case rr of Inl f \<Rightarrow> (w4, Inl f)
                    | Inr rc \<Rightarrow> if rc \<noteq> 0
                        then (emit (Close ih) (msg Err ''SOCKS handshake failed'' w4), Inr (- 1))
                        else (w4, Inr ih)) = (w', Inr h)"
          by (simp add: connect_resolved_def Let_def)
        show ?thesis
        proof (cases rr)
          case (Inl f)
          with res show ?thesis by simp
        next
          case (Inr rc)
          show ?thesis
          proof (cases "rc = 0")
            case True
            with res Inr have "w' = w4" "h = ih" by simp_all
            with esq t3 es2 Some ih q show ?thesis
              by (intro exI [of _ "Resolve rh rp 0 # es2 @ [FreeAddrInfo] @ esq"]) simp
          next
            case False
            with res Inr
            have "w' = emit (Close ih) (msg Err ''SOCKS handshake failed'' w4)" "h = - 1"
              by simp_all
            with esq t3 es2 Some ih q show ?thesis
              by (intro exI [of _ "Resolve rh rp 0 # es2 @ [FreeAddrInfo] @ esq
                                   @ [Msg Err ''SOCKS handshake failed'', Close ih]"])
                 (simp add: emit_def msg_def)
          qed
        qed
      qed
    qed
  qed
qed

lemma net_Connect_frame:
  assumes run: "net_Connect w host port ty pr = (w', Inr h)"
  shows "\<exists>es. trace w' = trace w @ es
      \<and> (\<forall>os. foldl track os es = (if h = - 1 then os else h # os))
      \<and> (\<forall>n. foldl held n es = n)"
proof (cases "var_CreateGetNonEmptyString w ''socks''")
  case None
  let ?w0 = "msg Dbg ''net: connecting to %s port %d'' w"
  from run None
  have "connect_resolved ?w0 False host (if port = 0 then 80 else port) host
          (if port = 0 then 80 else port) ty pr = (w', Inr h)"
    by (simp add: net_Connect_def Let_def)
  from connect_resolved_frame [OF this] obtain es where
    "trace w' = trace ?w0 @ es" "\<forall>os. foldl track os es = (if h = - 1 then os else h # os)"
    "\<forall>n. foldl held n es = n"
    by blast
  then show ?thesis
    by (intro exI [of _ "Msg Dbg ''net: connecting to %s port %d'' # es"]) (simp add: msg_def)
next
  case (Some psz_socks)
  let ?m = "Msg Dbg ''net: connecting to %s port %d (SOCKS) for %s port %d''"
  let ?w1 = "msg Dbg ''net: connecting to %s port %d (SOCKS) for %s port %d'' w"
  show ?thesis
  proof (cases "ty \<noteq> 0 \<and> ty \<noteq> SOCK_STREAM")
    case True
    with run Some
    have "w' = msg Err ''Socket type not supported through SOCKS'' ?w1" "h = - 1"
      by (simp_all add: net_Connect_def Let_def)
    then show ?thesis
      by (intro exI [of _ "[?m, Msg Err ''Socket type not supported through SOCKS'']"])
         (simp add: msg_def)
  next
    case tyok: False
    show ?thesis
    proof (cases "pr \<noteq> 0 \<and> pr \<noteq> IPPROTO_TCP")
      case True
      with run Some tyok
      have "w' = msg Err ''Transport not supported through SOCKS'' ?w1" "h = - 1"
        by (simp_all add: net_Connect_def Let_def)
      then show ?thesis
        by (intro exI [of _ "[?m, Msg Err ''Transport not supported through SOCKS'']"])
           (simp add: msg_def)
    next
      case False
      with run Some tyok
      have "connect_resolved ?w1 True (takeWhile (\<lambda>c. c \<noteq> CHR '':'') psz_socks)
              (if dropWhile (\<lambda>c. c \<noteq> CHR '':'') psz_socks \<noteq> []
               then atoi (tl (dropWhile (\<lambda>c. c \<noteq> CHR '':'') psz_socks)) else 1080)
              host (if port = 0 then 80 else port) SOCK_STREAM IPPROTO_TCP = (w', Inr h)"
        by (simp add: net_Connect_def Let_def)
      from connect_resolved_frame [OF this] obtain es where
        "trace w' = trace ?w1 @ es" "\<forall>os. foldl track os es = (if h = - 1 then os else h # os)"
        "\<forall>n. foldl held n es = n"
        by blast
      then show ?thesis
        by (intro exI [of _ "?m # es"]) (simp add: msg_def)
    qed
  qed
qed

text \<open>
  Whenever a connect call returns: if it returns a handle, that socket is the one
  socket the call leaves open; if it returns -1 (a candidate failing, all candidates
  failing, the object dying, the proxy refusing), every socket the call created has been
  closed; and in both cases every resolved list the call obtained has been released.
  The sockets open and the lists held before the call are left as they were. The
  hypothesis leaves out the one run that does not return; that run is the subject of
  C5 below.
\<close>

theorem net_Connect_leaves_no_socket:
  assumes "net_Connect w host port ty pr = (w', Inr h)"
  shows "open_fds (trace w') = (if h = - 1 then open_fds (trace w) else h # open_fds (trace w))
       \<and> live_addrinfo (trace w') = live_addrinfo (trace w)"
proof -
  from net_Connect_frame [OF assms] obtain es where
    "trace w' = trace w @ es" "\<forall>os. foldl track os es = (if h = - 1 then os else h # os)"
    "\<forall>n. foldl held n es = n"
    by blast
  then show ?thesis by (simp add: open_fds_def live_addrinfo_def)
qed

text \<open>
  The theorem on a call that succeeds on its third candidate, and on a call through
  a proxy that rejects the credentials.
\<close>

theorem net_Connect_leaves_no_socket_witness:
  "snd (net_Connect abc_world ''media.example'' 80 0 0) = Inr 12
   \<and> open_fds (trace (fst (net_Connect abc_world ''media.example'' 80 0 0))) = [12]
   \<and> live_addrinfo (trace (fst (net_Connect abc_world ''media.example'' 80 0 0))) = 0
   \<and> snd (net_Connect rejecting_proxy ''media.example'' 8080 0 0) = Inr (- 1)
   \<and> open_fds (trace (fst (net_Connect rejecting_proxy ''media.example'' 8080 0 0))) = []
   \<and> live_addrinfo (trace (fst (net_Connect rejecting_proxy ''media.example'' 8080 0 0))) = 0"
proof -
  have r1: "snd (net_Connect abc_world ''media.example'' 80 0 0) = Inr 12"
    by code_simp
  have r2: "snd (net_Connect rejecting_proxy ''media.example'' 8080 0 0) = Inr (- 1)"
    by code_simp
  have t1: "trace abc_world = []" by code_simp
  have t2: "trace rejecting_proxy = []" by code_simp
  have e1: "net_Connect abc_world ''media.example'' 80 0 0 =
              (fst (net_Connect abc_world ''media.example'' 80 0 0), Inr 12)"
    using r1 by (simp add: prod_eq_iff)
  have e2: "net_Connect rejecting_proxy ''media.example'' 8080 0 0 =
              (fst (net_Connect rejecting_proxy ''media.example'' 8080 0 0), Inr (- 1))"
    using r2 by (simp add: prod_eq_iff)
  show ?thesis
    using net_Connect_leaves_no_socket [OF e1] net_Connect_leaves_no_socket [OF e2] r1 r2
    by (simp add: t1 t2 open_fds_def live_addrinfo_def)
qed

text \<open>
  C5. The claim: on every outcome of a connect call, a failing proxy handshake
  included, no socket the call created is left open unless it is the handle returned.
  With a proxy configured and no credentials, the source offers method 2 (see C3); when
  the proxy selects it, the handshake takes \<^verbatim>\<open>strlen\<close> of the null user name (see C4)
  with the connected socket 12 open: the call does not return -1, it ends in the null
  dereference, and socket 12 has been created and never closed.
\<close>

theorem net_Connect_fault_leaves_socket:
  "snd (net_Connect bare_proxy ''media.example'' 8080 0 0) = Inl NullDereference
   \<and> open_fds (trace (fst (net_Connect bare_proxy ''media.example'' 8080 0 0))) = [12]
   \<and> closes (trace (fst (net_Connect bare_proxy ''media.example'' 8080 0 0))) = []"
  by code_simp

subsection \<open>The order of the candidates\<close>

text \<open>
  Which exit the poll loop takes depends on the answers of the operating system and on
  the number of slices, not on the world it is run in; so does the way one candidate
  ends, given the configured timeout.
\<close>

lemma poll_loop_exit_indep:
  "snd (poll_loop w a sk q r k) = snd (poll_loop w0 a sk q r k)"
proof (induction w a sk q r k arbitrary: w0 rule: poll_loop.induct)
  case (1 w a sk q r k)
  let ?p = "Poll [sk] (if 0 < q then 100 else r)"
  show ?case
  proof (cases "\<not> die_at a k \<and> poll_ret a k \<noteq> 1
                \<and> \<not> (poll_ret a k = - 1 \<and> poll_errno a k \<noteq> EINTR) \<and> \<not> q \<le> 0")
    case True
    then have c: "\<not> die_at a k" "poll_ret a k \<noteq> 1"
      "\<not> (poll_ret a k = - 1 \<and> poll_errno a k \<noteq> EINTR)" "\<not> q \<le> 0"
      by simp_all
    from "1.IH" [OF c(1) refl refl c(2) c(3) c(4), of "emit ?p w0"]
    have "snd (poll_loop (emit ?p w) a sk (q - 1) r (Suc k))
          = snd (poll_loop (emit ?p w0) a sk (q - 1) r (Suc k))" .
    with c show ?thesis
      by (auto simp: poll_loop.simps [of w a sk q r k] poll_loop.simps [of w0 a sk q r k] Let_def)
  next
    case False
    then show ?thesis
      by (auto simp: poll_loop.simps [of w a sk q r k] poll_loop.simps [of w0 a sk q r k] Let_def)
  qed
qed

text \<open>
  What the poll loop and one candidate add to the sockets closed and to the calls of
  \<^verbatim>\<open>net_Socket\<close>: the loop closes the socket when the object dies and no other; a
  candidate makes one call of \<^verbatim>\<open>net_Socket\<close>, and its socket is closed when it ends
  in \<^verbatim>\<open>next_ai\<close> or in the \<^verbatim>\<open>return\<close>.
\<close>

lemma poll_loop_closes:
  "closes (trace (fst (poll_loop w a sk q r k)))
     = closes (trace w) @ (if snd (poll_loop w a sk q r k) = Aborted then [sk] else [])
   \<and> tried (trace (fst (poll_loop w a sk q r k))) = tried (trace w)"
proof (induction w a sk q r k rule: poll_loop.induct)
  case (1 w a sk q r k)
  let ?p = "Poll [sk] (if 0 < q then 100 else r)"
  show ?case
  proof (cases "\<not> die_at a k \<and> poll_ret a k \<noteq> 1
                \<and> \<not> (poll_ret a k = - 1 \<and> poll_errno a k \<noteq> EINTR) \<and> \<not> q \<le> 0")
    case True
    then have c: "\<not> die_at a k" "poll_ret a k \<noteq> 1"
      "\<not> (poll_ret a k = - 1 \<and> poll_errno a k \<noteq> EINTR)" "\<not> q \<le> 0"
      by simp_all
    have step: "poll_loop w a sk q r k = poll_loop (emit ?p w) a sk (q - 1) r (Suc k)"
      using c by (auto simp: poll_loop.simps [of w a sk q r k] Let_def)
    from "1.IH" [OF c(1) refl refl c(2) c(3) c(4)] show ?thesis
      unfolding step by (simp add: emit_def closes_def tried_def)
  next
    case False
    then show ?thesis
      by (auto simp: poll_loop.simps [of w a sk q r k] Let_def emit_def msg_def closes_def tried_def)
  qed
qed


lemma closes_append: "closes (xs @ ys) = closes xs @ closes ys"
  by (simp add: closes_def)

lemma tried_append: "tried (xs @ ys) = tried xs @ tried ys"
  by (simp add: tried_def)

lemma attempt_one_in_progress:
  assumes "sock_fd a \<noteq> - 1" "conn_ret a \<noteq> 0" "conn_errno a = EINPROGRESS"
      and "poll_loop
             (w\<lparr>trace := trace w @
                 [Socket (ai_family ptr) (if ty \<noteq> 0 then ty else ai_socktype ptr)
                         (if pr \<noteq> 0 then pr else ai_protocol ptr) (sock_fd a),
                  Connect (sock_fd a), Msg Dbg ''connection: %m'']
                 @ (if var_int w ''ipv4-timeout'' < 0
                    then [Msg Err ''invalid negative value for ipv4-timeout''] else [])\<rparr>)
             a (sock_fd a)
             ((if var_int w ''ipv4-timeout'' < 0 then 0 else var_int w ''ipv4-timeout'') sdiv 100)
             ((if var_int w ''ipv4-timeout'' < 0 then 0 else var_int w ''ipv4-timeout'') smod 100)
             0 = (w5, ex)"
  shows "attempt_one w a ptr ty pr =
           (case ex of
              Aborted \<Rightarrow> (w5, Return)
            | NextAi \<Rightarrow> next_ai w5 (sock_fd a)
            | Writable \<Rightarrow>
                (if so_ret a = - 1 \<or> so_val a \<noteq> 0
                 then next_ai (msg Err ''connection failed: %m'' (emit (SoError (sock_fd a)) w5))
                        (sock_fd a)
                 else succeeded (emit (SoError (sock_fd a)) w5) (sock_fd a)))"
  using assms
  by (cases "var_int w ''ipv4-timeout'' < 0")
     (simp_all add: attempt_one_def Let_def emit_def msg_def split: loop_exit.split)

lemma attempt_one_exit:
  "snd (attempt_one w a ptr ty pr) =
     (if sock_fd a = - 1 then Continue
      else if conn_ret a = 0 then Break (sock_fd a)
      else if conn_errno a \<noteq> EINPROGRESS then Continue
      else case snd (poll_loop w a (sock_fd a)
                       ((if var_int w ''ipv4-timeout'' < 0 then 0
                         else var_int w ''ipv4-timeout'') sdiv 100)
                       ((if var_int w ''ipv4-timeout'' < 0 then 0
                         else var_int w ''ipv4-timeout'') smod 100) 0) of
             Aborted \<Rightarrow> Return
           | NextAi \<Rightarrow> Continue
           | Writable \<Rightarrow> if so_ret a = - 1 \<or> so_val a \<noteq> 0 then Continue
                         else Break (sock_fd a))"
proof (cases "sock_fd a \<noteq> - 1 \<and> conn_ret a \<noteq> 0 \<and> conn_errno a = EINPROGRESS")
  case False
  then show ?thesis
    by (auto simp: attempt_one_def Let_def next_ai_def succeeded_def)
next
  case True
  then have c: "sock_fd a \<noteq> - 1" "conn_ret a \<noteq> 0" "conn_errno a = EINPROGRESS"
    by simp_all
  let ?t = "if var_int w ''ipv4-timeout'' < 0 then 0 else var_int w ''ipv4-timeout''"
  let ?pre = "[Socket (ai_family ptr) (if ty \<noteq> 0 then ty else ai_socktype ptr)
                      (if pr \<noteq> 0 then pr else ai_protocol ptr) (sock_fd a),
               Connect (sock_fd a), Msg Dbg ''connection: %m'']
              @ (if var_int w ''ipv4-timeout'' < 0
                 then [Msg Err ''invalid negative value for ipv4-timeout''] else [])"
  obtain w5 ex where p: "poll_loop (w\<lparr>trace := trace w @ ?pre\<rparr>) a (sock_fd a)
                           (?t sdiv 100) (?t smod 100) 0 = (w5, ex)"
    by (cases "poll_loop (w\<lparr>trace := trace w @ ?pre\<rparr>) a (sock_fd a)
                 (?t sdiv 100) (?t smod 100) 0")
  from poll_loop_exit_indep [of w a "sock_fd a" "?t sdiv 100" "?t smod 100" 0
         "w\<lparr>trace := trace w @ ?pre\<rparr>"] p
  have same: "snd (poll_loop w a (sock_fd a) (?t sdiv 100) (?t smod 100) 0) = ex" by simp
  have "snd (attempt_one w a ptr ty pr) =
             (case ex of Aborted \<Rightarrow> Return | NextAi \<Rightarrow> Continue
              | Writable \<Rightarrow> if so_ret a = - 1 \<or> so_val a \<noteq> 0 then Continue
                            else Break (sock_fd a))"
    unfolding attempt_one_in_progress [OF c p]
    by (simp add: next_ai_def succeeded_def split: loop_exit.split)
  with c same show ?thesis by simp
qed

lemma attempt_one_exit_indep:
  assumes "var_int w ''ipv4-timeout'' = var_int w0 ''ipv4-timeout''"
  shows "snd (attempt_one w a ptr ty pr) = snd (attempt_one w0 a ptr ty pr)"
  unfolding attempt_one_exit assms
  by (simp add: poll_loop_exit_indep [of w _ _ _ _ _ w0])

lemma attempt_one_trace:
  "closes (trace (fst (attempt_one w a ptr ty pr))) =
     closes (trace w) @
       (case snd (attempt_one w a ptr ty pr) of
          Break h \<Rightarrow> []
        | Continue \<Rightarrow> if sock_fd a = - 1 then [] else [sock_fd a]
        | Return \<Rightarrow> [sock_fd a])
   \<and> tried (trace (fst (attempt_one w a ptr ty pr))) = tried (trace w) @ [sock_fd a]
   \<and> (\<forall>h. snd (attempt_one w a ptr ty pr) = Break h \<longrightarrow> h = sock_fd a \<and> h \<noteq> - 1)"
proof (cases "sock_fd a \<noteq> - 1 \<and> conn_ret a \<noteq> 0 \<and> conn_errno a = EINPROGRESS")
  case False
  then show ?thesis
    by (auto simp: attempt_one_def Let_def next_ai_def succeeded_def emit_def msg_def
        closes_def tried_def)
next
  case True
  then have c: "sock_fd a \<noteq> - 1" "conn_ret a \<noteq> 0" "conn_errno a = EINPROGRESS"
    by simp_all
  let ?t = "if var_int w ''ipv4-timeout'' < 0 then 0 else var_int w ''ipv4-timeout''"
  let ?pre = "[Socket (ai_family ptr) (if ty \<noteq> 0 then ty else ai_socktype ptr)
                      (if pr \<noteq> 0 then pr else ai_protocol ptr) (sock_fd a),
               Connect (sock_fd a), Msg Dbg ''connection: %m'']
              @ (if var_int w ''ipv4-timeout'' < 0
                 then [Msg Err ''invalid negative value for ipv4-timeout''] else [])"
  let ?w4 = "w\<lparr>trace := trace w @ ?pre\<rparr>"
  obtain w5 ex where p: "poll_loop ?w4 a (sock_fd a) (?t sdiv 100) (?t smod 100) 0 = (w5, ex)"
    by (cases "poll_loop ?w4 a (sock_fd a) (?t sdiv 100) (?t smod 100) 0")
  from poll_loop_closes [of ?w4 a "sock_fd a" "?t sdiv 100" "?t smod 100" 0] p
  have cl: "closes (trace w5) = closes (trace w) @ (if ex = Aborted then [sock_fd a] else [])"
    and tr: "tried (trace w5) = tried (trace w) @ [sock_fd a]"
    by (simp_all add: closes_append tried_append) (simp_all add: closes_def tried_def)
  show ?thesis
    unfolding attempt_one_in_progress [OF c p]
    using c(1) cl tr
    by (cases ex)
       (simp_all add: next_ai_def succeeded_def emit_def msg_def closes_append tried_append,
        simp_all add: closes_def tried_def)
qed


lemma attempt_one_keeps:
  "attempts (fst (attempt_one w a ptr ty pr)) = attempts w"
  "var_int (fst (attempt_one w a ptr ty pr)) = var_int w"
proof -
  obtain w' st where r: "attempt_one w a ptr ty pr = (w', st)"
    by (cases "attempt_one w a ptr ty pr")
  from attempt_one_frame [OF r] obtain es where "w' = w\<lparr>trace := trace w @ es\<rparr>"
    by blast
  with r show "attempts (fst (attempt_one w a ptr ty pr)) = attempts w"
    and "var_int (fst (attempt_one w a ptr ty pr)) = var_int w"
    by simp_all
qed

text \<open>
  C6, as the source has it. With no proxy configured and candidates A, B, C (and any
  others after them): socket creation fails for A; B gets socket \<open>b\<close> and its attempt
  fails, in any of the ways the source has (the connect fails at once, the wait fails,
  the time is spent, the socket has a pending error), which is the candidate ending in
  \<open>Continue\<close>; C succeeds, at once or after the wait, which is the candidate ending in
  \<open>Break c\<close>. Then the call returns \<open>c\<close>, exactly one socket is closed during the
  call, that of B (A never had one), and \<^verbatim>\<open>net_Socket\<close> is called three times, so no
  later candidate is tried.
\<close>

theorem net_Connect_third_candidate:
  assumes nosocks: "var_CreateGetNonEmptyString w ''socks'' = None"
      and gai: "getaddrinfo w host (if port = 0 then 80 else port) = (0, A # B # C # rest)"
      and noA: "sock_fd (attempts w 0) = - 1"
      and skB: "sock_fd (attempts w 1) = b" "b \<noteq> - 1"
      and failB: "snd (attempt_one w (attempts w 1) B ty pr) = Continue"
      and okC: "snd (attempt_one w (attempts w 2) C ty pr) = Break c"
  shows "snd (net_Connect w host port ty pr) = Inr c
       \<and> closes (trace (fst (net_Connect w host port ty pr))) = closes (trace w) @ [b]
       \<and> tried (trace (fst (net_Connect w host port ty pr))) = tried (trace w) @ [- 1, b, c]"
proof -
  define port' where "port' = (if port = 0 then 80 else port)"
  define w1 where "w1 = emit (Resolve host port' 0) (msg Dbg ''net: connecting to %s port %d'' w)"
  define wA where "wA = fst (attempt_one w1 (attempts w 0) A ty pr)"
  define wB where "wB = fst (attempt_one wA (attempts w 1) B ty pr)"
  define wC where "wC = fst (attempt_one wB (attempts w 2) C ty pr)"
  have k1: "attempts w1 = attempts w" "var_int w1 = var_int w"
    and t1: "closes (trace w1) = closes (trace w)" "tried (trace w1) = tried (trace w)"
    by (simp_all add: w1_def emit_def msg_def closes_def tried_def)
  have kA: "attempts wA = attempts w" "var_int wA = var_int w"
    by (simp_all add: wA_def attempt_one_keeps k1)
  have kB: "attempts wB = attempts w" "var_int wB = var_int w"
    by (simp_all add: wB_def attempt_one_keeps kA)
  have sA: "snd (attempt_one w1 (attempts w 0) A ty pr) = Continue"
    using noA by (simp add: attempt_one_exit)
  have sB: "snd (attempt_one wA (attempts w 1) B ty pr) = Continue"
    using failB attempt_one_exit_indep [of wA w "attempts w 1" B ty pr] kA by simp
  have sC: "snd (attempt_one wB (attempts w 2) C ty pr) = Break c"
    using okC attempt_one_exit_indep [of wB w "attempts w 2" C ty pr] kB by simp
  have rA: "attempt_one w1 (attempts w 0) A ty pr = (wA, Continue)"
    using sA by (simp add: wA_def prod_eq_iff)
  have rB: "attempt_one wA (attempts w (Suc 0)) B ty pr = (wB, Continue)"
    using sB by (simp add: wB_def prod_eq_iff)
  have rC: "attempt_one wB (attempts w (Suc (Suc 0))) C ty pr = (wC, Break c)"
    using sC by (simp add: wC_def prod_eq_iff numeral_2_eq_2)
  have loop: "connect_loop w1 (A # B # C # rest) 0 ty pr = (wC, Some c)"
    by (simp add: k1 kA kB rA rB rC)
  from attempt_one_trace [of w1 "attempts w 0" A ty pr] sA noA
  have tA: "closes (trace wA) = closes (trace w)" "tried (trace wA) = tried (trace w) @ [- 1]"
    by (simp_all add: wA_def t1)
  from attempt_one_trace [of wA "attempts w 1" B ty pr] sB skB
  have tB: "closes (trace wB) = closes (trace w) @ [b]"
    "tried (trace wB) = tried (trace w) @ [- 1, b]"
    by (simp_all add: wB_def tA)
  from attempt_one_trace [of wB "attempts w 2" C ty pr] sC
  have tC: "closes (trace wC) = closes (trace w) @ [b]"
    "tried (trace wC) = tried (trace w) @ [- 1, b, c]" and c: "c \<noteq> - 1"
    by (simp_all add: wC_def tB)
  have gai': "getaddrinfo (msg Dbg ''net: connecting to %s port %d'' w) host port'
              = (0, A # B # C # rest)"
    using gai by (simp add: port'_def msg_def)
  have "net_Connect w host port ty pr = (emit FreeAddrInfo wC, Inr c)"
    using nosocks c loop gai'
    by (simp add: net_Connect_def connect_resolved_def Let_def port'_def [symmetric]
        w1_def [symmetric] del: connect_loop.simps)
  then show ?thesis
    using tC by (simp add: emit_def closes_def tried_def)
qed

text \<open>
  The theorem on B timing out after waits of 100, 100 and 50 ms and C becoming
  writable in its first wait, and on B refused at once and C connected at once.
\<close>

theorem net_Connect_third_candidate_witness:
  "snd (net_Connect abc_late_world ''media.example'' 80 0 0) = Inr 12
   \<and> closes (trace (fst (net_Connect abc_late_world ''media.example'' 80 0 0))) = [11]
   \<and> tried (trace (fst (net_Connect abc_late_world ''media.example'' 80 0 0))) = [- 1, 11, 12]
   \<and> snd (net_Connect abc_world ''media.example'' 80 0 0) = Inr 12
   \<and> closes (trace (fst (net_Connect abc_world ''media.example'' 80 0 0))) = [11]
   \<and> tried (trace (fst (net_Connect abc_world ''media.example'' 80 0 0))) = [- 1, 11, 12]"
proof -
  have t: "trace abc_late_world = []" "trace abc_world = []" by code_simp+
  have l1: "var_CreateGetNonEmptyString abc_late_world ''socks'' = None" by code_simp
  have l2: "getaddrinfo abc_late_world ''media.example'' (if (80::int) = 0 then 80 else 80)
            = (0, cand 1 # cand 2 # cand 3 # [])"
    by (simp add: abc_late_world_def world0_def)
  have l3: "sock_fd (attempts abc_late_world 0) = - 1"
    "sock_fd (attempts abc_late_world 1) = 11" "(11::int) \<noteq> - 1"
    "snd (attempt_one abc_late_world (attempts abc_late_world 1) (cand 2) 0 0) = Continue"
    "snd (attempt_one abc_late_world (attempts abc_late_world 2) (cand 3) 0 0) = Break 12"
    by code_simp+
  have s1: "var_CreateGetNonEmptyString abc_world ''socks'' = None" by code_simp
  have s2: "getaddrinfo abc_world ''media.example'' (if (80::int) = 0 then 80 else 80)
            = (0, cand 1 # cand 2 # cand 3 # [])"
    by (simp add: abc_world_def world0_def)
  have s3: "sock_fd (attempts abc_world 0) = - 1"
    "sock_fd (attempts abc_world 1) = 11"
    "snd (attempt_one abc_world (attempts abc_world 1) (cand 2) 0 0) = Continue"
    "snd (attempt_one abc_world (attempts abc_world 2) (cand 3) 0 0) = Break 12"
    by code_simp+
  show ?thesis
    using net_Connect_third_candidate [OF l1 l2 l3(1,2,3,4,5)]
          net_Connect_third_candidate [OF s1 s2 s3(1,2) l3(3) s3(3,4)]
    by (simp add: t closes_def tried_def)
qed

text \<open>
  C6 as the claim states it asks for two sockets closed. On the same three candidates
  the call returns socket 12 and closes one socket, not two.
\<close>

theorem net_Connect_third_candidate_counterexample:
  "snd (net_Connect abc_world ''media.example'' 80 0 0) = Inr 12
   \<and> closes (trace (fst (net_Connect abc_world ''media.example'' 80 0 0))) = [11]
   \<and> length (closes (trace (fst (net_Connect abc_world ''media.example'' 80 0 0)))) \<noteq> 2"
  by code_simp

subsection \<open>The handshake after the connection\<close>

lemma handshake_invalid_version:
  "v \<noteq> 4 \<Longrightarrow> v \<noteq> 5 \<Longrightarrow>
   SocksHandshakeTCP c sk v u p h port =
   SocksHandshakeTCP (msg Warn ''invalid socks protocol version %d'' c) sk 5 u p h port"
  by (simp add: SocksHandshakeTCP_def)

text \<open>
  C7, as the source has it. With a proxy configured, a socket type and a protocol
  that pass, the proxy resolved and a candidate connected on socket \<open>h\<close>, the call is
  the handshake on \<open>h\<close> with version 5 (a constant of the source: no setting is read
  for it), the configured user name and password, and the host and port of the target,
  port 0 having become 80; a failed handshake closes the socket and gives -1. And the
  handshake takes any version other than 4 and 5 as 5, after a warning.
\<close>

theorem net_Connect_handshake_arguments:
  assumes socks: "var_CreateGetNonEmptyString w ''socks'' = Some psz_socks"
      and ty: "ty = 0 \<or> ty = SOCK_STREAM" and pr: "pr = 0 \<or> pr = IPPROTO_TCP"
      and rh: "rh = takeWhile (\<lambda>c. c \<noteq> CHR '':'') psz_socks"
      and rp: "rp = (if dropWhile (\<lambda>c. c \<noteq> CHR '':'') psz_socks \<noteq> []
                     then atoi (tl (dropWhile (\<lambda>c. c \<noteq> CHR '':'') psz_socks)) else 1080)"
      and gai: "getaddrinfo w rh rp = (0, res)"
      and loop: "connect_loop
                   (emit (Resolve rh rp 0)
                      (msg Dbg ''net: connecting to %s port %d (SOCKS) for %s port %d'' w))
                   res 0 SOCK_STREAM IPPROTO_TCP = (w2, Some h)"
      and h: "h \<noteq> - 1"
  shows "net_Connect w host port ty pr =
           (case SocksHandshakeTCP (emit FreeAddrInfo w2) h 5
                   (var_CreateGetNonEmptyString w ''socks-user'')
                   (var_CreateGetNonEmptyString w ''socks-pwd'')
                   host (if port = 0 then 80 else port) of
              (w4, Inl f) \<Rightarrow> (w4, Inl f)
            | (w4, Inr rc) \<Rightarrow>
                if rc \<noteq> 0
                then (emit (Close h) (msg Err ''SOCKS handshake failed'' w4), Inr (- 1))
                else (w4, Inr h))
       \<and> (\<forall>v c sk u p hh pp. v \<noteq> 4 \<and> v \<noteq> 5 \<longrightarrow>
            SocksHandshakeTCP (c :: world) sk v u p hh pp =
            SocksHandshakeTCP (msg Warn ''invalid socks protocol version %d'' c) sk 5 u p hh pp)"
proof -
  let ?w1 = "emit (Resolve rh rp 0)
               (msg Dbg ''net: connecting to %s port %d (SOCKS) for %s port %d'' w)"
  from connect_loop_frame [OF loop] obtain es where "w2 = ?w1\<lparr>trace := trace ?w1 @ es\<rparr>"
    by blast
  then have vars: "var_str (emit FreeAddrInfo w2) = var_str w"
    by (simp add: emit_def msg_def)
  have user: "var_CreateGetNonEmptyString (emit FreeAddrInfo w2) n
              = var_CreateGetNonEmptyString w n" for n
    by (simp add: var_CreateGetNonEmptyString_def vars)
  have gai': "getaddrinfo (msg Dbg ''net: connecting to %s port %d (SOCKS) for %s port %d'' w)
                rh rp = (0, res)"
    using gai by (simp add: msg_def)
  have res: "connect_resolved
               (msg Dbg ''net: connecting to %s port %d (SOCKS) for %s port %d'' w)
               True rh rp host (if port = 0 then 80 else port) SOCK_STREAM IPPROTO_TCP =
           (case SocksHandshakeTCP (emit FreeAddrInfo w2) h 5
                   (var_CreateGetNonEmptyString w ''socks-user'')
                   (var_CreateGetNonEmptyString w ''socks-pwd'')
                   host (if port = 0 then 80 else port) of
              (w4, Inl f) \<Rightarrow> (w4, Inl f)
            | (w4, Inr rc) \<Rightarrow>
                if rc \<noteq> 0
                then (emit (Close h) (msg Err ''SOCKS handshake failed'' w4), Inr (- 1))
                else (w4, Inr h))"
    using h by (simp add: connect_resolved_def gai' loop user Let_def del: connect_loop.simps)
  have "net_Connect w host port ty pr =
          connect_resolved
               (msg Dbg ''net: connecting to %s port %d (SOCKS) for %s port %d'' w)
               True rh rp host (if port = 0 then 80 else port) SOCK_STREAM IPPROTO_TCP"
    using socks ty pr by (auto simp: net_Connect_def Let_def rh rp)
  with res show ?thesis
    by (simp add: handshake_invalid_version)
qed

text \<open>
  The theorem on a proxy that selects user/password: the frames written carry the
  configured credentials and the name and port of the target.
\<close>

theorem net_Connect_handshake_arguments_witness:
  "snd (net_Connect proxy_world ''media.example'' 8080 0 0) = Inr 12
   \<and> writes (trace (fst (net_Connect proxy_world ''media.example'' 8080 0 0))) =
       [[5, 1, 0],
        [5, 5] @ bytes_of ''alice'' @ [6] @ bytes_of ''secret'',
        [5, 1, 0, 3, 13] @ bytes_of ''media.example'' @ [31, 144]]
   \<and> SocksHandshakeTCP proxy_world 12 7 None None ''media.example'' 8080 =
       SocksHandshakeTCP (msg Warn ''invalid socks protocol version %d'' proxy_world) 12 5
         None None ''media.example'' 8080"
proof -
  let ?w1 = "emit (Resolve ''proxy.example'' 1080 0)
               (msg Dbg ''net: connecting to %s port %d (SOCKS) for %s port %d'' proxy_world)"
  let ?w2 = "fst (connect_loop ?w1 [cand 1] 0 SOCK_STREAM IPPROTO_TCP)"
  have s: "var_CreateGetNonEmptyString proxy_world ''socks'' = Some ''proxy.example:1080''"
    by code_simp
  have rh: "''proxy.example'' = takeWhile (\<lambda>c. c \<noteq> CHR '':'') ''proxy.example:1080''"
    by code_simp
  have rp: "1080 = (if dropWhile (\<lambda>c. c \<noteq> CHR '':'') ''proxy.example:1080'' \<noteq> []
                    then atoi (tl (dropWhile (\<lambda>c. c \<noteq> CHR '':'') ''proxy.example:1080''))
                    else 1080)"
    by code_simp
  have gai: "getaddrinfo proxy_world ''proxy.example'' 1080 = (0, [cand 1])"
    by (simp add: proxy_world_def world0_def)
  have "snd (connect_loop ?w1 [cand 1] 0 SOCK_STREAM IPPROTO_TCP) = Some 12"
    by code_simp
  then have loop: "connect_loop ?w1 [cand 1] 0 SOCK_STREAM IPPROTO_TCP = (?w2, Some 12)"
    by (simp add: prod_eq_iff)
  have h: "(12::int) \<noteq> - 1" by simp
  have ty: "(0::int) = 0 \<or> (0::int) = SOCK_STREAM" and pr: "(0::int) = 0 \<or> (0::int) = IPPROTO_TCP"
    by simp_all
  note inst = net_Connect_handshake_arguments
    [OF s ty pr rh rp gai loop h, where host = "''media.example''" and port = 8080]
  have eq: "net_Connect proxy_world ''media.example'' 8080 0 0 =
           (case SocksHandshakeTCP (emit FreeAddrInfo ?w2) 12 5
                   (var_CreateGetNonEmptyString proxy_world ''socks-user'')
                   (var_CreateGetNonEmptyString proxy_world ''socks-pwd'')
                   ''media.example'' 8080 of
              (w4, Inl f) \<Rightarrow> (w4, Inl f)
            | (w4, Inr rc) \<Rightarrow>
                if rc \<noteq> 0
                then (emit (Close 12) (msg Err ''SOCKS handshake failed'' w4), Inr (- 1))
                else (w4, Inr 12))"
    using inst [THEN conjunct1] by simp
  have co: "SocksHandshakeTCP proxy_world 12 7 None None ''media.example'' 8080 =
       SocksHandshakeTCP (msg Warn ''invalid socks protocol version %d'' proxy_world) 12 5
         None None ''media.example'' 8080"
    using inst [THEN conjunct2] by simp
  have r: "snd (net_Connect proxy_world ''media.example'' 8080 0 0) = Inr 12"
    unfolding eq by code_simp
  have wr: "writes (trace (fst (net_Connect proxy_world ''media.example'' 8080 0 0))) =
       [[5, 1, 0],
        [5, 5] @ bytes_of ''alice'' @ [6] @ bytes_of ''secret'',
        [5, 1, 0, 3, 13] @ bytes_of ''media.example'' @ [31, 144]]"
    unfolding eq by code_simp
  from r wr co show ?thesis by simp
qed

text \<open>
  C7 as the claim states it has the handshake run with the configured version, 4 or 5.
  The source reads no such setting. In a configuration where every integer variable is
  4, a variable for the version included, the first frame on the wire is the method
  offer of version 5, not the request of version 4.
\<close>

theorem net_Connect_handshake_counterexample:
  "var_int proxy_world ''socks-version'' = 4
   \<and> snd (net_Connect proxy_world ''media.example'' 8080 0 0) = Inr 12
   \<and> hd (writes (trace (fst (net_Connect proxy_world ''media.example'' 8080 0 0)))) = [5, 1, 0]"
  by code_simp

section \<open>The SOCKS negotiation\<close>

text \<open>
  For every peer and every pair of credentials, the first frame of a version 5
  negotiation is the offer, cut where the socket stops taking bytes: two methods when
  both pointers are null, one method otherwise.
\<close>

lemma SocksNegociate_offer:
  "hd (writes (drop (length (trace c)) (trace (fst (SocksNegociate c sk 5 u p))))) =
     take (wcap c) (if u = None \<and> p = None then [5, 2, 0, 2] else [5, 1, 0])"
proof -
  let ?c1 = "fst (net_Write c sk
               (if u = None \<and> p = None then [word_of_int 5, 2, 0, 2] else [word_of_int 5, 1, 0])
               (if u = None \<and> p = None then 4 else 3))"
  have w: "trace ?c1 = trace c @ [Write sk (take (wcap c)
             (if u = None \<and> p = None then [5, 2, 0, 2] else [5, 1, 0]))]"
    by (simp add: net_Write_def Let_def min_def)
  have "quiet_ext ?c1 (fst (SocksNegociate c sk 5 u p))"
    unfolding SocksNegociate_def Let_def split_beta
    apply (simp only: simp_thms if_False)
    apply ((rule quiet_ext_refl | rule quiet_ext_intros socks_userpass_quiet)+)
    done
  then obtain es where "trace (fst (SocksNegociate c sk 5 u p)) = trace ?c1 @ es"
    by (auto simp: quiet_ext_iff)
  with w show ?thesis by (simp add: writes_def)
qed

text \<open>
  C3. The claim: without a user name and without a password the offer lists the single
  method no-auth, and with either of them the two methods no-auth and user/password.
  The source sets \<^verbatim>\<open>b_auth\<close> when both pointers are null, so it does the opposite:
  without credentials the frame on the wire is \<open>05 02 00 02\<close>, with both of them
  \<open>05 01 00\<close>.
\<close>

theorem SocksNegociate_offer_inverted:
  "trace (fst (SocksNegociate (peer [5, 0]) 7 5 None None)) ! 0 = Write 7 [5, 2, 0, 2]
   \<and> trace (fst (SocksNegociate (peer [5, 0]) 7 5 (Some ''user'') (Some ''secret''))) ! 0
       = Write 7 [5, 1, 0]"
  by code_simp

text \<open>
  For every peer that takes the offer and selects method 2, a negotiation without a
  user name ends in the null dereference, whatever the password.
\<close>

lemma SocksNegociate_faults_without_user:
  assumes "4 \<le> wcap c" "take 2 (inbuf c) = [v, 2]"
  shows "snd (SocksNegociate c sk 5 None p) = Inl NullDereference"
proof -
  have "length (take 2 (inbuf c)) = 2" using assms(2) by simp
  then have l: "2 \<le> length (inbuf c)" by simp
  show ?thesis
    using assms l
    by (cases p) (simp_all add: SocksNegociate_def net_Write_def net_Read_def msg_def Let_def
        socks_userpass_def min_def)
qed

text \<open>
  C4. The claim: when the server selects user/password and no credentials were given,
  the negotiation returns an error. The source enters the user/password branch on the
  selected method alone and takes \<^verbatim>\<open>strlen\<close> of the null user name: the run does not
  return \<^verbatim>\<open>VLC_EGENERIC\<close>, it ends in a null dereference after the offer and the
  reply.
\<close>

theorem SocksNegociate_null_credentials:
  "snd (SocksNegociate (peer [5, 2]) 7 5 None None) = Inl NullDereference
   \<and> trace (fst (SocksNegociate (peer [5, 2]) 7 5 None None))
       = [Write 7 [5, 2, 0, 2], Read 7 2 [5, 2], Msg Dbg ''socks: v=%d method=%x'']"
  by code_simp

section \<open>Accepting connections\<close>

text \<open>
  \<^verbatim>\<open>poll\<close> is handed the listening sockets only, so the entry of the wake-up
  descriptor keeps the \<open>revents = 0\<close> it was given: on no input does the call reach
  \<^verbatim>\<open>vlc_object_wait\<close>.
\<close>

lemma accept_scan_no_wait:
  "ObjectWait \<notin> set (trace s) \<Longrightarrow>
   ObjectWait \<notin> set (trace (fst (accept_scan s r ufd n idx)))"
  by (induction idx arbitrary: s) (simp_all add: Let_def emit_def msg_def move_to_end_def)

lemma poll_leaves_last:
  assumes "length ufd = Suc n" "poll s r ufd n t = (s1, ufd', ret)"
  shows "ufd' ! n = ufd ! n" and "trace s1 = trace s @ [Poll (map fd (take n ufd)) t]"
  using assms
  by (auto simp: poll_def Let_def emit_def nth_append split: option.splits if_splits)

lemma accept_loop_no_wait:
  "ObjectWait \<notin> set (trace s) \<Longrightarrow>
   ObjectWait \<notin> set (trace (fst (accept_loop s t evfd rs)))"
proof (induction rs arbitrary: s)
  case Nil
  then show ?case by simp
next
  case (Cons r rs)
  let ?n = "length (takeWhile (\<lambda>x. x \<noteq> - 1) (pi_fd s))"
  let ?ufd = "map (\<lambda>i. \<lparr>fd = (if i < ?n then pi_fd s ! i else evfd),
                          events = POLLIN, revents = 0\<rparr>) [0..<?n + 1]"
  obtain s1 ufd' ret where p: "poll s r ?ufd ?n t = (s1, ufd', ret)"
    by (cases "poll s r ?ufd ?n t")
  have len: "length ?ufd = Suc ?n" by simp
  from poll_leaves_last [OF len p]
  have last: "ufd' ! ?n = ?ufd ! ?n" and t1: "trace s1 = trace s @ [Poll (map fd (take ?n ?ufd)) t]"
    by simp_all
  have "?ufd ! ?n = \<lparr>fd = evfd, events = POLLIN, revents = 0\<rparr>"
    by (simp add: nth_append)
  with last have zero: "revents (ufd' ! ?n) = 0" by simp
  have s1: "ObjectWait \<notin> set (trace s1)" using t1 Cons.prems by simp
  obtain s2 got where sc: "accept_scan s1 r ufd' ?n [0..<?n] = (s2, got)"
    by (cases "accept_scan s1 r ufd' ?n [0..<?n]")
  from accept_scan_no_wait [OF s1, of r ufd' ?n "[0..<?n]"] sc
  have s2: "ObjectWait \<notin> set (trace s2)" by simp
  from Cons.IH [OF s2] have ih: "ObjectWait \<notin> set (trace (fst (accept_loop s2 t evfd rs)))" .
  show ?case
    using Cons.prems p zero s1 sc s2 ih
    by (auto simp: Let_def msg_def split: option.splits)
qed

lemma net_Accept_never_consumes_wakeup:
  "ObjectWait \<notin> set (trace s) \<Longrightarrow>
   ObjectWait \<notin> set (trace (fst (net_Accept s i_wait evfd rounds)))"
  by (simp add: net_Accept_def accept_loop_no_wait)

text \<open>
  C1. The claim: the wait includes the descriptor of the cancellation signal, so a
  signal raised while no listener is ready makes the call consume it and return with
  \<^verbatim>\<open>EINTR\<close>. The source fills \<open>n + 1\<close> entries and hands \<open>n\<close> of them to
  \<^verbatim>\<open>poll\<close>: with the listeners 3, 4, 5 and the wake-up descriptor 9 readable, the wait
  is over 3, 4, 5 only, it times out after the second, the wake-up is not consumed and
  \<^verbatim>\<open>errno\<close> is left as it was; with an unbounded wait the call never returns.
\<close>

theorem net_Accept_misses_wakeup:
  "trace (fst (net_Accept listeners3 1000000 9 [woken])) = [Poll [3, 4, 5] 1000]
   \<and> snd (net_Accept listeners3 1000000 9 [woken]) = Some (Returns (- 1))
   \<and> errno (fst (net_Accept listeners3 1000000 9 [woken])) = 0
   \<and> snd (net_Accept listeners3 (- 1) 9 [woken]) = Some Blocks"
  by code_simp

text \<open>
  C2. The claim: after a successful accept on the socket at index \<open>i\<close> the set is the
  old one with that socket moved to the end and the later ones shifted left. The source
  moves \<open>n - (i + 1)\<close> bytes, not that many \<^verbatim>\<open>int\<close>s: from 3, 4, 5 with index 0
  serviced the set becomes 4, 4, 3 where bytes are least significant first, and 3, 4, 3
  where they are most significant first; socket 5 is gone from it either way.
\<close>

theorem net_Accept_move_counts_bytes:
  "snd (net_Accept listeners3 1000000 9 [all_ready]) = Some (Returns 13)
   \<and> pi_fd (fst (net_Accept listeners3 1000000 9 [all_ready])) = [4, 4, 3, - 1]
   \<and> pi_fd (fst (net_Accept (listeners3\<lparr>big_endian := True\<rparr>) 1000000 9 [all_ready]))
       = [3, 4, 3, - 1]"
  by code_simp






end
